theory Spec2Isabelle
  imports Main "HOL-Library.Word"
begin

unbundle bit_operations_syntax

section \<open>Go values used by the transaction indexer\<close>

text \<open>
  The development embeds \<^verbatim>\<open>state/txindex/kv/kv.go\<close>. A Go \<^verbatim>\<open>[]byte\<close> and a Go
  \<^verbatim>\<open>string\<close> are both lists of 8-bit characters; \<^verbatim>\<open>int64\<close> and \<^verbatim>\<open>uint32\<close> are
  machine words, so that the shifts and the wrap-around of the source are the model's.
\<close>

type_synonym bytes = string
type_synonym int64 = "64 word"
type_synonym uint32 = "32 word"

text \<open>
  Errors are values. \<open>Wrap\<close> stands for \<^verbatim>\<open>fmt.Errorf("<msg>: %w", err)\<close>. A Go panic is
  the outcome \<open>Panic\<close>, kept apart from a returned error.
\<close>

datatype error =
    ErrorEmptyHash
  | ErrSyntax
  | ErrRange
  | ErrLength
  | InvalidByteError char
  | CodecError string
  | QueryError string
  | Wrap string error

datatype 'a outcome = Panic string | Return 'a

subsection \<open>Package strings\<close>

definition HasPrefix :: "string \<Rightarrow> string \<Rightarrow> bool" where
  "HasPrefix s p = (take (length p) s = p)"

definition HasSuffix :: "string \<Rightarrow> string \<Rightarrow> bool" where
  "HasSuffix s p = (length p \<le> length s \<and> drop (length s - length p) s = p)"

definition TrimPrefix :: "string \<Rightarrow> string \<Rightarrow> string" where
  "TrimPrefix s p = (if HasPrefix s p then drop (length p) s else s)"

definition TrimSuffix :: "string \<Rightarrow> string \<Rightarrow> string" where
  "TrimSuffix s p = (if HasSuffix s p then take (length s - length p) s else s)"

text \<open>\<open>Cut s sep\<close>: the text before and after the first occurrence of \<open>sep\<close> in \<open>s\<close>.\<close>

fun Cut :: "string \<Rightarrow> string \<Rightarrow> (string \<times> string) option" where
  "Cut [] sep = (if sep = [] then Some ([], []) else None)"
| "Cut (x # xs) sep =
     (if HasPrefix (x # xs) sep then Some ([], drop (length sep) (x # xs))
      else (case Cut xs sep of None \<Rightarrow> None | Some (a, b) \<Rightarrow> Some (x # a, b)))"

definition Contains :: "string \<Rightarrow> string \<Rightarrow> bool" where
  "Contains s sub = (Cut s sub \<noteq> None)"

text \<open>\<open>Count s sep\<close>: the number of non-overlapping occurrences of a non-empty \<open>sep\<close>.\<close>

lemma Cut_length:
  "Cut s sep = Some (a, b) \<Longrightarrow> length s = length a + length sep + length b"
proof (induction s arbitrary: a)
  case Nil
  then show ?case by (simp split: if_splits)
next
  case (Cons x xs)
  show ?case
  proof (cases "HasPrefix (x # xs) sep")
    case True
    with Cons.prems have "a = []" "b = drop (length sep) (x # xs)" by simp_all
    moreover from True have "length (take (length sep) (x # xs)) = length sep"
      unfolding HasPrefix_def by (rule arg_cong)
    then have "length sep \<le> length (x # xs)"
      unfolding length_take by linarith
    moreover note this
    ultimately show ?thesis by simp
  next
    case False
    with Cons.prems obtain a' where c: "Cut xs sep = Some (a', b)" and a: "a = x # a'"
      by (auto split: option.splits)
    from Cons.IH [OF c] a show ?thesis by simp
  qed
qed

function Count :: "string \<Rightarrow> string \<Rightarrow> nat" where
  "Count s sep =
     (if sep = [] then length s + 1
      else (case Cut s sep of None \<Rightarrow> 0 | Some (a, b) \<Rightarrow> 1 + Count b sep))"
  by pat_completeness auto
termination
  by (relation "measure (\<lambda>(s, sep). length s)") (auto dest: Cut_length)

text \<open>\<open>Split s sep\<close> is \<^verbatim>\<open>strings.SplitN(s, sep, -1)\<close>: every piece between separators.\<close>

function Split :: "string \<Rightarrow> string \<Rightarrow> string list" where
  "Split s sep =
     (if sep = [] then map (\<lambda>c. [c]) s
      else (case Cut s sep of None \<Rightarrow> [s] | Some (a, b) \<Rightarrow> a # Split b sep))"
  by pat_completeness auto
termination
  by (relation "measure (\<lambda>(s, sep). length s)") (auto dest: Cut_length)

declare Count.simps [simp del] Split.simps [simp del]

subsection \<open>Package strconv\<close>

definition digit_char :: "nat \<Rightarrow> char" where
  "digit_char d = ''0123456789'' ! d"

fun dec_nat :: "nat \<Rightarrow> string" where
  "dec_nat n = (if n < 10 then [digit_char n] else dec_nat (n div 10) @ [digit_char (n mod 10)])"

declare dec_nat.simps [simp del]

text \<open>\<open>FormatInt i\<close> is \<^verbatim>\<open>strconv.FormatInt(i, 10)\<close>, which is also what \<^verbatim>\<open>%d\<close> prints.\<close>

definition dec_int :: "int \<Rightarrow> string" where
  "dec_int i = (if i < 0 then CHR ''-'' # dec_nat (nat (- i)) else dec_nat (nat i))"

definition FormatInt :: "int64 \<Rightarrow> string" where
  "FormatInt i = dec_int (sint i)"

definition FormatUint :: "uint32 \<Rightarrow> string" where
  "FormatUint i = dec_nat (unat i)"

definition digit_val :: "char \<Rightarrow> nat option" where
  "digit_val c =
     (let n = (of_char c :: nat) in if 48 \<le> n \<and> n \<le> 57 then Some (n - 48) else None)"

text \<open>
  The digit loop of \<^verbatim>\<open>strconv.ParseUint(s, 10, 64)\<close>: a character that is no digit is a
  syntax error, and the value leaving 64 bits is a range error, whichever comes first.
\<close>

fun parseUintLoop :: "string \<Rightarrow> nat \<Rightarrow> error + nat" where
  "parseUintLoop [] n = Inr n"
| "parseUintLoop (c # cs) n =
     (case digit_val c of
        None \<Rightarrow> Inl ErrSyntax
      | Some d \<Rightarrow>
          if n \<ge> 2 ^ 64 div 10 + 1 then Inl ErrRange
          else if 10 * n + d \<ge> 2 ^ 64 then Inl ErrRange
          else parseUintLoop cs (10 * n + d))"

definition ParseUint :: "string \<Rightarrow> error + nat" where
  "ParseUint s = (if s = [] then Inl ErrSyntax else parseUintLoop s 0)"

text \<open>
  \<open>ParseInt s\<close> is \<^verbatim>\<open>strconv.ParseInt(s, 10, 64)\<close>. Its callers look at the value only
  when the error is nil, so the model returns one or the other.
\<close>

definition ParseInt :: "string \<Rightarrow> error + int64" where
  "ParseInt s =
     (if s = [] then Inl ErrSyntax
      else
        let neg = (hd s = CHR ''-'');
            s' = (if hd s = CHR ''+'' \<or> hd s = CHR ''-'' then tl s else s)
        in (case ParseUint s' of
              Inl e \<Rightarrow> Inl e
            | Inr un \<Rightarrow>
                if \<not> neg \<and> un \<ge> 2 ^ 63 then Inl ErrRange
                else if neg \<and> un > 2 ^ 63 then Inl ErrRange
                else Inr (if neg then - word_of_nat un else word_of_nat un)))"

subsection \<open>Package encoding/hex\<close>

definition fromHexChar :: "char \<Rightarrow> nat option" where
  "fromHexChar c =
     (let n = (of_char c :: nat) in
      if 48 \<le> n \<and> n \<le> 57 then Some (n - 48)
      else if 97 \<le> n \<and> n \<le> 102 then Some (n - 97 + 10)
      else if 65 \<le> n \<and> n \<le> 70 then Some (n - 65 + 10)
      else None)"

text \<open>
  \<^verbatim>\<open>hex.DecodeString\<close> returns the bytes decoded before the error together with the
  error; \<open>hexDecode\<close> is its loop with the decoded prefix as accumulator.
\<close>

fun hexDecode :: "string \<Rightarrow> bytes \<Rightarrow> bytes \<times> error option" where
  "hexDecode [] acc = (acc, None)"
| "hexDecode [a] acc =
     (case fromHexChar a of
        None \<Rightarrow> (acc, Some (InvalidByteError a))
      | Some x \<Rightarrow> (acc, Some ErrLength))"
| "hexDecode (a # b # rest) acc =
     (case fromHexChar a of
        None \<Rightarrow> (acc, Some (InvalidByteError a))
      | Some x \<Rightarrow>
          (case fromHexChar b of
             None \<Rightarrow> (acc, Some (InvalidByteError b))
           | Some y \<Rightarrow> hexDecode rest (acc @ [char_of (16 * x + y)])))"

definition DecodeString :: "string \<Rightarrow> bytes \<times> error option" where
  "DecodeString s = hexDecode s []"

section \<open>The indexed data\<close>

text \<open>
  Modelled from the spec: the result schema of its section 3, for the declarations of
  package abci, which are not part of the sources (a result is OK when its code is 0).
  This is \<^verbatim>\<open>abci.TxResult\<close> with the fields the indexer reads. \<open>TxIdx\<close> is the Go field
  \<^verbatim>\<open>Index\<close> of the result and \<open>AttrIndex\<close> the Go field \<^verbatim>\<open>Index\<close> of an attribute
  (read through \<^verbatim>\<open>GetIndex()\<close>); the name \<open>Index\<close> is kept for the indexing method.
\<close>

record EventAttribute =
  Key :: bytes
  Value :: bytes
  AttrIndex :: bool

record Event =
  Type :: string
  Attributes :: "EventAttribute list"

record ResponseDeliverTx =
  Code :: uint32
  Events :: "Event list"

record TxResult =
  Height :: int64
  TxIdx :: uint32
  Tx :: bytes
  Result :: ResponseDeliverTx

definition CodeTypeOK :: uint32 where
  "CodeTypeOK = 0"

definition IsOK :: "ResponseDeliverTx \<Rightarrow> bool" where
  "IsOK r = (Code r = CodeTypeOK)"

section \<open>Keys\<close>

definition tagKeySeparator :: string where
  "tagKeySeparator = ''/''"

definition eventSeqSeparator :: string where
  "eventSeqSeparator = ''$es$''"

text \<open>
  Modelled from the spec: the composite keys \<open>tx.hash\<close> and \<open>tx.height\<close>, constants of
  package types, which is not part of the sources.
\<close>

definition TxHashKey :: string where
  "TxHashKey = ''tx.hash''"

definition TxHeightKey :: string where
  "TxHeightKey = ''tx.height''"

definition isTagKey :: "bytes \<Rightarrow> bool" where
  "isTagKey key = (Count key tagKeySeparator \<ge> 3)"

text \<open>
  \<open>parts[len(parts)-2]\<close> is an index out of range, hence a panic, on a key with no
  separator.
\<close>

definition extractHeightFromKey :: "bytes \<Rightarrow> (error + int64) outcome" where
  "extractHeightFromKey key =
     (let parts = Split key tagKeySeparator in
      if length parts < 2 then Panic ''index out of range''
      else Return (ParseInt (parts ! (length parts - 2))))"

definition extractValueFromKey :: "bytes \<Rightarrow> string outcome" where
  "extractValueFromKey key =
     (let parts = Split key tagKeySeparator;
          partsLen = length parts;
          value = TrimPrefix key (parts ! 0 @ tagKeySeparator)
      in if partsLen < 2 then Panic ''index out of range''
         else
           let suffix1 = tagKeySeparator @ parts ! (partsLen - 1) @ [];
               suffix2 = tagKeySeparator @ parts ! (partsLen - 2) @ suffix1
           in Return (TrimSuffix value suffix2))"

definition extractEventSeqFromKey :: "bytes \<Rightarrow> string" where
  "extractEventSeqFromKey key =
     (let parts = Split key tagKeySeparator;
          lastEl = parts ! (length parts - 1)
      in if Contains lastEl eventSeqSeparator
         then (case Cut lastEl eventSeqSeparator of Some (a, b) \<Rightarrow> b | None \<Rightarrow> ''0'')
         else ''0'')"

definition keyForEvent :: "string \<Rightarrow> bytes \<Rightarrow> TxResult \<Rightarrow> int64 \<Rightarrow> bytes" where
  "keyForEvent key value result eventSeq =
     key @ ''/'' @ value @ ''/'' @ FormatInt (Height result) @ ''/'' @ FormatUint (TxIdx result)
       @ (eventSeqSeparator @ FormatInt eventSeq)"

text \<open>
  \<open>joinSizeBytes n s\<close> copies the slices one after the other into a zeroed buffer of
  \<open>n\<close> bytes; what does not fit is dropped.
\<close>

definition joinSizeBytes :: "nat \<Rightarrow> bytes list \<Rightarrow> bytes" where
  "joinSizeBytes n s = take n (concat s @ replicate n (char_of (0 :: nat)))"

definition joinBytes :: "bytes list \<Rightarrow> bytes" where
  "joinBytes s = joinSizeBytes (sum_list (map length s)) s"

text \<open>
  \<open>be4 h\<close> is \<^verbatim>\<open>[]byte{byte(h >> 24), byte(h >> 16), byte(h >> 8), byte(h)}\<close>: the shift is
  arithmetic and the conversion keeps the low eight bits.
\<close>

definition be4 :: "int64 \<Rightarrow> bytes" where
  "be4 h =
     [char_of (unat (signed_drop_bit 24 h)), char_of (unat (signed_drop_bit 16 h)),
      char_of (unat (signed_drop_bit 8 h)), char_of (unat h)]"

definition keyForHeight :: "TxResult \<Rightarrow> bytes" where
  "keyForHeight result =
     joinBytes [TxHeightKey, tagKeySeparator, be4 (Height result),
       ''/'' @ FormatInt (Height result) @ ''/'' @ FormatUint (TxIdx result)
         @ (eventSeqSeparator @ ''0'')]"

section \<open>The store\<close>

text \<open>
  Modelled from the spec: the ordered key-value store (\<^verbatim>\<open>dbm.DB\<close> of the library
  cometbft-db, whose code is not part of the sources) as the contract of the spec's
  section 6 describes it: point get, batched writes applied in order on commit, a prefix
  iterator and a half-open \<open>[from, to)\<close> iterator, keys in the lexicographic order of
  unsigned bytes. A store is the list of its entries in ascending key order. Store
  failures are outside the model, so the branches of the source that only pass a store
  error on have no counterpart.
\<close>

type_synonym DB = "(bytes \<times> bytes) list"
type_synonym Batch = "(bytes \<times> bytes) list"

fun bytesLess :: "bytes \<Rightarrow> bytes \<Rightarrow> bool" where
  "bytesLess [] [] = False"
| "bytesLess [] (y # ys) = True"
| "bytesLess (x # xs) [] = False"
| "bytesLess (x # xs) (y # ys) =
     ((of_char x :: nat) < of_char y \<or> (x = y \<and> bytesLess xs ys))"

definition dbGet :: "DB \<Rightarrow> bytes \<Rightarrow> bytes option" where
  "dbGet db key = map_of db key"

fun dbSet :: "bytes \<Rightarrow> bytes \<Rightarrow> DB \<Rightarrow> DB" where
  "dbSet k v [] = [(k, v)]"
| "dbSet k v ((k', v') # db) =
     (if k = k' then (k, v) # db
      else if bytesLess k k' then (k, v) # (k', v') # db
      else (k', v') # dbSet k v db)"

definition batchSet :: "Batch \<Rightarrow> bytes \<Rightarrow> bytes \<Rightarrow> Batch" where
  "batchSet b k v = b @ [(k, v)]"

definition WriteSync :: "Batch \<Rightarrow> DB \<Rightarrow> DB" where
  "WriteSync b db = foldl (\<lambda>d (k, v). dbSet k v d) db b"

definition Iterator :: "DB \<Rightarrow> bytes \<Rightarrow> bytes \<Rightarrow> (bytes \<times> bytes) list" where
  "Iterator db from to = filter (\<lambda>(k, v). \<not> bytesLess k from \<and> bytesLess k to) db"

definition IteratePrefix :: "DB \<Rightarrow> bytes \<Rightarrow> (bytes \<times> bytes) list" where
  "IteratePrefix db prefix = filter (\<lambda>(k, v). HasPrefix k prefix) db"

section \<open>The indexer: Get, Index and AddBatch\<close>

text \<open>
  What the write path takes from other packages: the transaction hash
  (\<^verbatim>\<open>types.Tx(tx).Hash()\<close>) and the protobuf codec of \<^verbatim>\<open>abci.TxResult\<close>. They are
  parameters of the model; theorems assume of them only what they state.
\<close>

record Codec =
  Hash :: "bytes \<Rightarrow> bytes"
  Marshal :: "TxResult \<Rightarrow> error + bytes"
  Unmarshal :: "bytes \<Rightarrow> error + TxResult"

record TxIndex =
  store :: DB
  eventSeq :: int64

definition NewTxIndex :: "DB \<Rightarrow> TxIndex" where
  "NewTxIndex db = \<lparr>store = db, eventSeq = 0\<rparr>"

text \<open>\<open>Get\<close> returns \<open>Inl err\<close>, or \<open>Inr None\<close> for \<^verbatim>\<open>(nil, nil)\<close>, or the result.\<close>

definition Get :: "Codec \<Rightarrow> TxIndex \<Rightarrow> bytes \<Rightarrow> error + TxResult option" where
  "Get cd txi hash =
     (if length hash = 0 then Inl ErrorEmptyHash
      else (case dbGet (store txi) hash of
              None \<Rightarrow> Inr None
            | Some rawBytes \<Rightarrow>
                (case Unmarshal cd rawBytes of
                   Inl err \<Rightarrow> Inl (Wrap ''error reading TxResult'' err)
                 | Inr txResult \<Rightarrow> Inr (Some txResult))))"

text \<open>The inner loop of \<open>indexEvents\<close>, over the attributes of one event.\<close>

fun indexAttributes ::
  "string \<Rightarrow> EventAttribute list \<Rightarrow> TxResult \<Rightarrow> bytes \<Rightarrow> int64 \<Rightarrow> Batch \<Rightarrow> Batch" where
  "indexAttributes ty [] result hash seq b = b"
| "indexAttributes ty (attr # attrs) result hash seq b =
     (if length (Key attr) = 0 then indexAttributes ty attrs result hash seq b
      else
        let compositeTag = ty @ ''.'' @ Key attr
        in if AttrIndex attr
           then indexAttributes ty attrs result hash seq
                  (batchSet b (keyForEvent compositeTag (Value attr) result seq) hash)
           else indexAttributes ty attrs result hash seq b)"

text \<open>
  \<open>indexEvents\<close> threads the counter \<^verbatim>\<open>txi.eventSeq\<close> and the write batch through the
  events of the result.
\<close>

fun indexEventsLoop ::
  "Event list \<Rightarrow> TxResult \<Rightarrow> bytes \<Rightarrow> int64 \<times> Batch \<Rightarrow> int64 \<times> Batch" where
  "indexEventsLoop [] result hash (seq, b) = (seq, b)"
| "indexEventsLoop (event # events) result hash (seq, b) =
     (let seq' = seq + 1
      in if length (Type event) = 0 then indexEventsLoop events result hash (seq', b)
         else indexEventsLoop events result hash
                (seq', indexAttributes (Type event) (Attributes event) result hash seq' b))"

definition indexEvents :: "TxResult \<Rightarrow> bytes \<Rightarrow> int64 \<times> Batch \<Rightarrow> int64 \<times> Batch" where
  "indexEvents result hash st = indexEventsLoop (Events (Result result)) result hash st"

text \<open>
  \<open>indexWrites\<close> is the part of \<open>Index\<close> after the overwrite check: the event entries, the
  by-height entry, the by-hash entry, and the commit. The counter keeps its increments
  when marshalling fails.
\<close>

definition indexWrites :: "Codec \<Rightarrow> TxResult \<Rightarrow> bytes \<Rightarrow> TxIndex \<Rightarrow> error option \<times> TxIndex" where
  "indexWrites cd result hash txi =
     (case indexEvents result hash (eventSeq txi, []) of
        (seq, b) \<Rightarrow>
          let b = batchSet b (keyForHeight result) hash
          in (case Marshal cd result of
                Inl err \<Rightarrow> (Some err, txi\<lparr>eventSeq := seq\<rparr>)
              | Inr rawBytes \<Rightarrow>
                  (None, \<lparr>store = WriteSync (batchSet b hash rawBytes) (store txi),
                          eventSeq = seq\<rparr>)))"

definition Index :: "Codec \<Rightarrow> TxResult \<Rightarrow> TxIndex \<Rightarrow> error option \<times> TxIndex" where
  "Index cd result txi =
     (let hash = Hash cd (Tx result)
      in if \<not> IsOK (Result result)
         then (case Get cd txi hash of
                 Inl err \<Rightarrow> (Some err, txi)
               | Inr None \<Rightarrow> indexWrites cd result hash txi
               | Inr (Some oldResult) \<Rightarrow>
                   if Code (Result oldResult) = CodeTypeOK then (None, txi)
                   else indexWrites cd result hash txi)
         else indexWrites cd result hash txi)"

text \<open>The loop of \<open>AddBatch\<close> over \<^verbatim>\<open>b.Ops\<close>; all writes go to one batch.\<close>

fun addBatchLoop ::
  "Codec \<Rightarrow> TxResult list \<Rightarrow> int64 \<times> Batch \<Rightarrow> error option \<times> int64 \<times> Batch" where
  "addBatchLoop cd [] (seq, b) = (None, seq, b)"
| "addBatchLoop cd (result # ops) (seq, b) =
     (let hash = Hash cd (Tx result)
      in (case indexEvents result hash (seq, b) of
            (seq', b') \<Rightarrow>
              let b' = batchSet b' (keyForHeight result) hash
              in (case Marshal cd result of
                    Inl err \<Rightarrow> (Some err, seq', b')
                  | Inr rawBytes \<Rightarrow> addBatchLoop cd ops (seq', batchSet b' hash rawBytes))))"

definition AddBatch :: "Codec \<Rightarrow> TxResult list \<Rightarrow> TxIndex \<Rightarrow> error option \<times> TxIndex" where
  "AddBatch cd ops txi =
     (case addBatchLoop cd ops (eventSeq txi, []) of
        (Some err, seq, b) \<Rightarrow> (Some err, txi\<lparr>eventSeq := seq\<rparr>)
      | (None, seq, b) \<Rightarrow> (None, \<lparr>store = WriteSync b (store txi), eventSeq = seq\<rparr>))"

section \<open>Queries\<close>

text \<open>
  Modelled from the spec: the condition of its sections 4.3 and 6, a composite key, an
  operator and an operand, for the declarations of package query, which are not part of
  the sources.
\<close>

datatype Operator =
  OpLessEqual | OpGreaterEqual | OpLess | OpGreater | OpEqual | OpContains | OpExists

text \<open>
  A Go \<^verbatim>\<open>interface{}\<close> value as it occurs as the operand of a condition or as a bound of
  a range: nil, a string, a \<^verbatim>\<open>*big.Int\<close>, or a value of another dynamic type, of which
  only its \<^verbatim>\<open>%v\<close> rendering is kept.
\<close>

datatype Any = NilValue | StringValue string | BigIntValue int | OtherValue string

record Condition =
  CompositeKey :: string
  Op :: Operator
  Operand :: Any

text \<open>
  Of \<^verbatim>\<open>indexer.QueryRange\<close> the indexer reads the key and what the accessors
  \<^verbatim>\<open>LowerBoundValue()\<close> and \<^verbatim>\<open>UpperBoundValue()\<close> return; the record holds these.
\<close>

record QueryRange =
  RangeKey :: string
  LowerBoundValue :: Any
  UpperBoundValue :: Any

record HeightInfo =
  heightRange :: QueryRange
  height :: int64
  heightEqIdx :: int
  onlyHeightRange :: bool
  onlyHeightEq :: bool

definition zeroHeightInfo :: HeightInfo where
  "zeroHeightInfo =
     \<lparr>heightRange = \<lparr>RangeKey = [], LowerBoundValue = NilValue, UpperBoundValue = NilValue\<rparr>,
      height = 0, heightEqIdx = 0, onlyHeightRange = False, onlyHeightEq = False\<rparr>"

text \<open>
  The planning helpers \<open>Search\<close> calls are declared in files that are not part of the
  sources (\<^verbatim>\<open>utils.go\<close> of the package, and the package \<^verbatim>\<open>indexer\<close>). They are pure
  functions of the condition list and are parameters of the model. The ranges come as a
  list: the order in which Go walks the map of ranges.
\<close>

record Planner =
  dedupMatchEvents :: "Condition list \<Rightarrow> Condition list \<times> bool"
  dedupHeight :: "Condition list \<Rightarrow> Condition list \<times> HeightInfo"
  LookForRangesWithHeight :: "Condition list \<Rightarrow> QueryRange list \<times> int list \<times> QueryRange"
  checkHeightConditions :: "HeightInfo \<Rightarrow> int64 \<Rightarrow> bool"

definition intInSlice :: "int \<Rightarrow> int list \<Rightarrow> bool" where
  "intInSlice a list = (a \<in> set list)"

text \<open>
  A context is read only through \<^verbatim>\<open>select { case <-ctx.Done(): ...; default: }\<close>. The
  selects of one call of \<open>Search\<close> happen one after the other; \<open>ctx n\<close> tells whether the
  \<open>n\<close>-th of them finds the channel closed.
\<close>

type_synonym Context = "nat \<Rightarrow> bool"

datatype selected = Done | Default

definition selectDone :: "Context \<Rightarrow> nat \<Rightarrow> selected" where
  "selectDone ctx n = (if ctx n then Done else Default)"

text \<open>The type assertion \<^verbatim>\<open>c.Operand.(string)\<close> panics on any other dynamic type.\<close>

fun lookForHash :: "Condition list \<Rightarrow> (bytes \<times> bool \<times> error option) outcome" where
  "lookForHash [] = Return ([], False, None)"
| "lookForHash (c # cs) =
     (if CompositeKey c = TxHashKey
      then (case Operand c of
              StringValue s \<Rightarrow> (case DecodeString s of (decoded, err) \<Rightarrow> Return (decoded, True, err))
            | _ \<Rightarrow> Panic ''interface conversion: interface {} is not string'')
      else lookForHash cs)"

fun lookForHeightFrom :: "int \<Rightarrow> Condition list \<Rightarrow> (int64 \<times> int) outcome" where
  "lookForHeightFrom i [] = Return (0, - 1)"
| "lookForHeightFrom i (c # cs) =
     (if CompositeKey c = TxHeightKey \<and> Op c = OpEqual
      then (case Operand c of
              BigIntValue v \<Rightarrow> Return (word_of_int v, i)
            | _ \<Rightarrow> Panic ''interface conversion: interface {} is not *big.Int'')
      else lookForHeightFrom (i + 1) cs)"

definition lookForHeight :: "Condition list \<Rightarrow> (int64 \<times> int) outcome" where
  "lookForHeight conditions = lookForHeightFrom 0 conditions"

subsection \<open>Start keys\<close>

text \<open>\<open>fmtV\<close> is \<^verbatim>\<open>fmt.Sprintf("%v", f)\<close>.\<close>

fun fmtV :: "Any \<Rightarrow> string" where
  "fmtV NilValue = ''<nil>''"
| "fmtV (StringValue s) = s"
| "fmtV (BigIntValue i) = dec_int i"
| "fmtV (OtherValue s) = s"

definition startKey :: "string list \<Rightarrow> bytes" where
  "startKey fs = concat (map (\<lambda>f. f @ tagKeySeparator) fs)"

definition startKeyForCondition :: "Condition \<Rightarrow> int64 \<Rightarrow> bytes" where
  "startKeyForCondition c h =
     (if sint h > 0 then startKey [CompositeKey c, fmtV (Operand c), FormatInt h]
      else startKey [CompositeKey c, fmtV (Operand c)])"

subsection \<open>The sets of hashes\<close>

text \<open>
  A \<^verbatim>\<open>map[string][]byte\<close> is an association list with one entry per key, in the order
  of first insertion. Go leaves the order of a walk over a map open; the model fixes it.
\<close>

type_synonym HashSet = "(string \<times> bytes) list"

fun mapSet :: "string \<Rightarrow> bytes \<Rightarrow> HashSet \<Rightarrow> HashSet" where
  "mapSet k v [] = [(k, v)]"
| "mapSet k v ((k', v') # m) = (if k = k' then (k, v) # m else (k', v') # mapSet k v m)"

definition setTmpHashes :: "HashSet \<Rightarrow> bytes \<times> bytes \<Rightarrow> bool \<Rightarrow> HashSet" where
  "setTmpHashes tmpHeights it matchEvents =
     (if matchEvents
      then mapSet (snd it @ extractEventSeqFromKey (fst it)) (snd it) tmpHeights
      else mapSet (snd it) (snd it) tmpHeights)"

text \<open>
  The closing loop of \<open>match\<close> and \<open>matchRange\<close>: an entry of \<open>filteredHashes\<close> is deleted
  when \<open>tmpHashes\<close> has no equal entry under its key. The \<^verbatim>\<open>break\<close> of the select leaves
  the select, and the loop goes on.
\<close>

fun intersectLoop :: "Context \<Rightarrow> HashSet \<Rightarrow> HashSet \<Rightarrow> nat \<Rightarrow> HashSet \<times> nat" where
  "intersectLoop ctx tmpHashes [] n = ([], n)"
| "intersectLoop ctx tmpHashes ((k, v) # filteredHashes) n =
     (if map_of tmpHashes k = None \<or> map_of tmpHashes k \<noteq> Some v
      then (case selectDone ctx n of
              Done \<Rightarrow> intersectLoop ctx tmpHashes filteredHashes (n + 1)
            | Default \<Rightarrow> intersectLoop ctx tmpHashes filteredHashes (n + 1))
      else (case intersectLoop ctx tmpHashes filteredHashes n of
              (rest, n') \<Rightarrow> ((k, v) # rest, n')))"

subsection \<open>match\<close>

text \<open>
  The loop of the cases \<^verbatim>\<open>OpEqual\<close> and \<^verbatim>\<open>OpExists\<close> of \<open>match\<close>, which differ in the
  iterated prefix only. A \<^verbatim>\<open>continue\<close> skips the select.
\<close>

fun matchScan ::
  "Planner \<Rightarrow> Context \<Rightarrow> bool \<Rightarrow> HeightInfo \<Rightarrow> (bytes \<times> bytes) list \<Rightarrow> HashSet \<times> nat
   \<Rightarrow> (HashSet \<times> nat) outcome" where
  "matchScan pl ctx matchEvents heightInfo [] (tmpHashes, n) = Return (tmpHashes, n)"
| "matchScan pl ctx matchEvents heightInfo (it # its) (tmpHashes, n) =
     (case (if matchEvents
            then (case extractHeightFromKey (fst it) of
                    Panic m \<Rightarrow> Panic m
                  | Return (Inl err) \<Rightarrow> Return False
                  | Return (Inr keyHeight) \<Rightarrow> Return (checkHeightConditions pl heightInfo keyHeight))
            else Return True) of
        Panic m \<Rightarrow> Panic m
      | Return False \<Rightarrow> matchScan pl ctx matchEvents heightInfo its (tmpHashes, n)
      | Return True \<Rightarrow>
          (case selectDone ctx n of
             Done \<Rightarrow> matchScan pl ctx matchEvents heightInfo its
                       (setTmpHashes tmpHashes it matchEvents, n + 1)
           | Default \<Rightarrow> matchScan pl ctx matchEvents heightInfo its
                          (setTmpHashes tmpHashes it matchEvents, n + 1)))"

text \<open>The loop of the case \<^verbatim>\<open>OpContains\<close>.\<close>

fun matchContains ::
  "Planner \<Rightarrow> Context \<Rightarrow> Any \<Rightarrow> bool \<Rightarrow> HeightInfo \<Rightarrow> (bytes \<times> bytes) list \<Rightarrow> HashSet \<times> nat
   \<Rightarrow> (HashSet \<times> nat) outcome" where
  "matchContains pl ctx operand matchEvents heightInfo [] (tmpHashes, n) = Return (tmpHashes, n)"
| "matchContains pl ctx operand matchEvents heightInfo (it # its) (tmpHashes, n) =
     (if \<not> isTagKey (fst it)
      then matchContains pl ctx operand matchEvents heightInfo its (tmpHashes, n)
      else
        (case extractValueFromKey (fst it) of
           Panic m \<Rightarrow> Panic m
         | Return v \<Rightarrow>
             (case operand of
                StringValue sub \<Rightarrow>
                  if Contains v sub
                  then
                    (case (if matchEvents
                           then (case extractHeightFromKey (fst it) of
                                   Panic m \<Rightarrow> Panic m
                                 | Return (Inl err) \<Rightarrow> Return False
                                 | Return (Inr keyHeight) \<Rightarrow>
                                     Return (checkHeightConditions pl heightInfo keyHeight))
                           else Return True) of
                       Panic m \<Rightarrow> Panic m
                     | Return False \<Rightarrow>
                         matchContains pl ctx operand matchEvents heightInfo its (tmpHashes, n)
                     | Return True \<Rightarrow>
                         (case selectDone ctx n of
                            Done \<Rightarrow> matchContains pl ctx operand matchEvents heightInfo its
                                      (setTmpHashes tmpHashes it matchEvents, n + 1)
                          | Default \<Rightarrow> matchContains pl ctx operand matchEvents heightInfo its
                                         (setTmpHashes tmpHashes it matchEvents, n + 1)))
                  else
                    (case selectDone ctx n of
                       Done \<Rightarrow> matchContains pl ctx operand matchEvents heightInfo its
                                 (tmpHashes, n + 1)
                     | Default \<Rightarrow> matchContains pl ctx operand matchEvents heightInfo its
                                    (tmpHashes, n + 1))
              | _ \<Rightarrow> Panic ''interface conversion: interface {} is not string'')))"

definition match ::
  "Planner \<Rightarrow> Context \<Rightarrow> TxIndex \<Rightarrow> Condition \<Rightarrow> bytes \<Rightarrow> HashSet \<Rightarrow> bool \<Rightarrow> bool
   \<Rightarrow> HeightInfo \<Rightarrow> nat \<Rightarrow> (HashSet \<times> nat) outcome" where
  "match pl ctx txi c startKeyBz filteredHashes firstRun matchEvents heightInfo n =
     (if \<not> firstRun \<and> length filteredHashes = 0 then Return (filteredHashes, n)
      else
        (case (case Op c of
                 OpEqual \<Rightarrow>
                   matchScan pl ctx matchEvents heightInfo
                     (IteratePrefix (store txi) startKeyBz) ([], n)
               | OpExists \<Rightarrow>
                   matchScan pl ctx matchEvents heightInfo
                     (IteratePrefix (store txi) (startKey [CompositeKey c])) ([], n)
               | OpContains \<Rightarrow>
                   matchContains pl ctx (Operand c) matchEvents heightInfo
                     (IteratePrefix (store txi) (startKey [CompositeKey c])) ([], n)
               | _ \<Rightarrow> Panic ''other operators should be handled already'') of
           Panic m \<Rightarrow> Panic m
         | Return (tmpHashes, n') \<Rightarrow>
             if length tmpHashes = 0 \<or> firstRun then Return (tmpHashes, n')
             else Return (intersectLoop ctx tmpHashes filteredHashes n')))"

subsection \<open>matchRange\<close>

definition blockToSearch :: int where
  "blockToSearch = 5000"

text \<open>\<open>asBigInt v\<close> is the assertion \<^verbatim>\<open>v.(*big.Int)\<close> in its two-valued form.\<close>

fun asBigInt :: "Any \<Rightarrow> int option" where
  "asBigInt (BigIntValue i) = Some i"
| "asBigInt v = None"

text \<open>\<open>Int64 x\<close> is \<^verbatim>\<open>x.Int64()\<close> of a \<^verbatim>\<open>*big.Int\<close>: the low 64 bits.\<close>

definition Int64 :: "int \<Rightarrow> int64" where
  "Int64 x = word_of_int x"

text \<open>
  The bounds \<open>matchRange\<close> scans between: a missing bound is put \<open>blockToSearch - 1\<close>
  away from the other one, and the lower height is at least 1. \<open>None\<close> when neither
  bound is a \<^verbatim>\<open>*big.Int\<close>.
\<close>

definition rangeHeights :: "int option \<Rightarrow> int option \<Rightarrow> (int64 \<times> int64) option" where
  "rangeHeights lowerBound upperBound =
     (let rangeBound = blockToSearch - 1
      in (case (case (lowerBound, upperBound) of
                  (None, None) \<Rightarrow> None
                | (None, Some u) \<Rightarrow> Some (u - rangeBound, u)
                | (Some l, None) \<Rightarrow> Some (l, l + rangeBound)
                | (Some l, Some u) \<Rightarrow> Some (l, u)) of
            None \<Rightarrow> None
          | Some (l, u) \<Rightarrow>
              let lowerHeight = Int64 l; upperHeight = Int64 u
              in Some (if sint lowerHeight < 1 then 1 else lowerHeight, upperHeight)))"

fun matchRangeLoop ::
  "Planner \<Rightarrow> Context \<Rightarrow> string \<Rightarrow> bool \<Rightarrow> HeightInfo \<Rightarrow> (bytes \<times> bytes) list \<Rightarrow> HashSet \<times> nat
   \<Rightarrow> (HashSet \<times> nat) outcome" where
  "matchRangeLoop pl ctx qrKey matchEvents heightInfo [] (tmpHashes, n) = Return (tmpHashes, n)"
| "matchRangeLoop pl ctx qrKey matchEvents heightInfo (it # its) (tmpHashes, n) =
     (if \<not> isTagKey (fst it)
      then matchRangeLoop pl ctx qrKey matchEvents heightInfo its (tmpHashes, n)
      else
        (case (if matchEvents \<and> qrKey \<noteq> TxHeightKey
               then (case extractHeightFromKey (fst it) of
                       Panic m \<Rightarrow> Panic m
                     | Return (Inl err) \<Rightarrow> Return False
                     | Return (Inr keyHeight) \<Rightarrow>
                         Return (checkHeightConditions pl heightInfo keyHeight))
               else Return True) of
           Panic m \<Rightarrow> Panic m
         | Return False \<Rightarrow> matchRangeLoop pl ctx qrKey matchEvents heightInfo its (tmpHashes, n)
         | Return True \<Rightarrow>
             (case selectDone ctx n of
                Done \<Rightarrow> matchRangeLoop pl ctx qrKey matchEvents heightInfo its
                          (setTmpHashes tmpHashes it matchEvents, n + 1)
              | Default \<Rightarrow> matchRangeLoop pl ctx qrKey matchEvents heightInfo its
                             (setTmpHashes tmpHashes it matchEvents, n + 1))))"

definition matchRange ::
  "Planner \<Rightarrow> Context \<Rightarrow> TxIndex \<Rightarrow> QueryRange \<Rightarrow> bytes \<Rightarrow> HashSet \<Rightarrow> bool \<Rightarrow> bool
   \<Rightarrow> HeightInfo \<Rightarrow> nat \<Rightarrow> (HashSet \<times> nat) outcome" where
  "matchRange pl ctx txi qr startKeyBz filteredHashes firstRun matchEvents heightInfo n =
     (if \<not> firstRun \<and> length filteredHashes = 0 then Return (filteredHashes, n)
      else
        (case rangeHeights (asBigInt (LowerBoundValue qr)) (asBigInt (UpperBoundValue qr)) of
           None \<Rightarrow> Return (filteredHashes, n)
         | Some (lowerHeight, upperHeight) \<Rightarrow>
             if sint lowerHeight > sint upperHeight
                \<or> sint (upperHeight - lowerHeight) > blockToSearch
             then Return (filteredHashes, n)
             else
               let sizeBytes = length startKeyBz + 4 + length tagKeySeparator;
                   fromKey = joinSizeBytes sizeBytes [startKeyBz, be4 lowerHeight, tagKeySeparator];
                   toKey = joinSizeBytes sizeBytes [startKeyBz, be4 upperHeight, tagKeySeparator]
               in (case matchRangeLoop pl ctx (RangeKey qr) matchEvents heightInfo
                          (Iterator (store txi) fromKey toKey) ([], n) of
                     Panic m \<Rightarrow> Panic m
                   | Return (tmpHashes, n') \<Rightarrow>
                       if length tmpHashes = 0 \<or> firstRun then Return (tmpHashes, n')
                       else Return (intersectLoop ctx tmpHashes filteredHashes n'))))"

subsection \<open>Search\<close>

text \<open>
  The loop over the ranges. Its state is \<open>filteredHashes\<close>, \<open>hashesInitialized\<close> and the
  number of selects made so far. The \<^verbatim>\<open>break\<close> after an empty first result leaves this
  loop.
\<close>

fun rangesLoop ::
  "Planner \<Rightarrow> Context \<Rightarrow> TxIndex \<Rightarrow> bool \<Rightarrow> HeightInfo \<Rightarrow> QueryRange list
   \<Rightarrow> HashSet \<times> bool \<times> nat \<Rightarrow> (HashSet \<times> bool \<times> nat) outcome" where
  "rangesLoop pl ctx txi matchEvents heightInfo [] st = Return st"
| "rangesLoop pl ctx txi matchEvents heightInfo (qr # qrs) (filteredHashes, hashesInitialized, n) =
     (if RangeKey qr = TxHeightKey \<and> matchEvents \<and> \<not> onlyHeightRange heightInfo
      then rangesLoop pl ctx txi matchEvents heightInfo qrs (filteredHashes, hashesInitialized, n)
      else if \<not> hashesInitialized
      then (case matchRange pl ctx txi qr (startKey [RangeKey qr]) filteredHashes True
                   matchEvents heightInfo n of
              Panic m \<Rightarrow> Panic m
            | Return (fh, n') \<Rightarrow>
                if length fh = 0 then Return (fh, True, n')
                else rangesLoop pl ctx txi matchEvents heightInfo qrs (fh, True, n'))
      else (case matchRange pl ctx txi qr (startKey [RangeKey qr]) filteredHashes False
                   matchEvents heightInfo n of
              Panic m \<Rightarrow> Panic m
            | Return (fh, n') \<Rightarrow>
                rangesLoop pl ctx txi matchEvents heightInfo qrs (fh, hashesInitialized, n')))"

text \<open>The loop over the remaining conditions; \<open>i\<close> is the index of the head of the list.\<close>

fun conditionsLoop ::
  "Planner \<Rightarrow> Context \<Rightarrow> TxIndex \<Rightarrow> bool \<Rightarrow> HeightInfo \<Rightarrow> int list \<Rightarrow> int \<Rightarrow> Condition list
   \<Rightarrow> HashSet \<times> bool \<times> nat \<Rightarrow> (HashSet \<times> bool \<times> nat) outcome" where
  "conditionsLoop pl ctx txi matchEvents heightInfo skipIndexes i [] st = Return st"
| "conditionsLoop pl ctx txi matchEvents heightInfo skipIndexes i (c # cs)
       (filteredHashes, hashesInitialized, n) =
     (if intInSlice i skipIndexes
      then conditionsLoop pl ctx txi matchEvents heightInfo skipIndexes (i + 1) cs
             (filteredHashes, hashesInitialized, n)
      else if \<not> hashesInitialized
      then (case match pl ctx txi c (startKeyForCondition c (height heightInfo)) filteredHashes
                   True matchEvents heightInfo n of
              Panic m \<Rightarrow> Panic m
            | Return (fh, n') \<Rightarrow>
                if length fh = 0 then Return (fh, True, n')
                else conditionsLoop pl ctx txi matchEvents heightInfo skipIndexes (i + 1) cs
                       (fh, True, n'))
      else (case match pl ctx txi c (startKeyForCondition c (height heightInfo)) filteredHashes
                   False matchEvents heightInfo n of
              Panic m \<Rightarrow> Panic m
            | Return (fh, n') \<Rightarrow>
                conditionsLoop pl ctx txi matchEvents heightInfo skipIndexes (i + 1) cs
                  (fh, hashesInitialized, n')))"

text \<open>
  The last loop fetches every hash of the set once. A fetched \<^verbatim>\<open>nil\<close> result is appended
  as it is, so the results are optional values; the returned slice is \<open>None\<close> when the
  source returns \<^verbatim>\<open>nil\<close> for it.
\<close>

type_synonym SearchResult = "TxResult option list option \<times> error option"

fun resultsLoop ::
  "Codec \<Rightarrow> Context \<Rightarrow> TxIndex \<Rightarrow> HashSet \<Rightarrow> TxResult option list \<times> bytes list \<times> nat
   \<Rightarrow> SearchResult" where
  "resultsLoop cd ctx txi [] (results, resultMap, n) = (Some results, None)"
| "resultsLoop cd ctx txi ((k, h) # filteredHashes) (results, resultMap, n) =
     (if h \<notin> set resultMap
      then (case Get cd txi h of
              Inl err \<Rightarrow> (None, Some (Wrap ''failed to get Tx'' err))
            | Inr res \<Rightarrow>
                (case selectDone ctx n of
                   Done \<Rightarrow> resultsLoop cd ctx txi filteredHashes
                             (results @ [res], resultMap @ [h], n + 1)
                 | Default \<Rightarrow> resultsLoop cd ctx txi filteredHashes
                                (results @ [res], resultMap @ [h], n + 1)))
      else (case selectDone ctx n of
              Done \<Rightarrow> resultsLoop cd ctx txi filteredHashes (results, resultMap, n + 1)
            | Default \<Rightarrow> resultsLoop cd ctx txi filteredHashes (results, resultMap, n + 1)))"

text \<open>\<open>searchConditions\<close> is \<open>Search\<close> from the point where no hash condition was found.\<close>

definition searchConditions ::
  "Codec \<Rightarrow> Planner \<Rightarrow> Context \<Rightarrow> TxIndex \<Rightarrow> Condition list \<Rightarrow> SearchResult outcome" where
  "searchConditions cd pl ctx txi conditions0 =
     (case dedupMatchEvents pl conditions0 of
        (conditions1, matchEvents) \<Rightarrow>
          let skipIndexes0 = (if matchEvents then [0] else [])
          in (case (if matchEvents then Return (dedupHeight pl conditions1)
                    else (case lookForHeight conditions1 of
                            Panic m \<Rightarrow> Panic m
                          | Return (h, idx) \<Rightarrow>
                              Return (conditions1,
                                zeroHeightInfo\<lparr>height := h, heightEqIdx := idx\<rparr>))) of
                Panic m \<Rightarrow> Panic m
              | Return (conditions, heightInfo0) \<Rightarrow>
                  let skipIndexes1 =
                        (if matchEvents \<and> \<not> onlyHeightEq heightInfo0
                         then skipIndexes0 @ [heightEqIdx heightInfo0] else skipIndexes0)
                  in (case LookForRangesWithHeight pl conditions of
                        (ranges, rangeIndexes, hr) \<Rightarrow>
                          let heightInfo = heightInfo0\<lparr>heightRange := hr\<rparr>;
                              skipIndexes =
                                (if length ranges > 0 then skipIndexes1 @ rangeIndexes
                                 else skipIndexes1)
                          in (case rangesLoop pl ctx txi matchEvents heightInfo ranges
                                     ([], False, 1) of
                                Panic m \<Rightarrow> Panic m
                              | Return st \<Rightarrow>
                                  (case conditionsLoop pl ctx txi matchEvents heightInfo
                                          skipIndexes 0 conditions st of
                                     Panic m \<Rightarrow> Panic m
                                   | Return (filteredHashes, hashesInitialized, n) \<Rightarrow>
                                       Return (resultsLoop cd ctx txi filteredHashes
                                                 ([], [], n)))))))"

text \<open>
  \<open>Search\<close> takes what \<^verbatim>\<open>q.Conditions()\<close> returns: the parse error or the conditions.
\<close>

definition Search ::
  "Codec \<Rightarrow> Planner \<Rightarrow> Context \<Rightarrow> error + Condition list \<Rightarrow> TxIndex \<Rightarrow> SearchResult outcome" where
  "Search cd pl ctx q txi =
     (case selectDone ctx 0 of
        Done \<Rightarrow> Return (Some [], None)
      | Default \<Rightarrow>
          (case q of
             Inl err \<Rightarrow>
               Return (None, Some (Wrap ''error during parsing conditions from query'' err))
           | Inr conditions \<Rightarrow>
               (case lookForHash conditions of
                  Panic m \<Rightarrow> Panic m
                | Return (hash, ok, err) \<Rightarrow>
                    (case err of
                       Some e \<Rightarrow>
                         Return (None,
                           Some (Wrap ''error during searching for a hash in the query'' e))
                     | None \<Rightarrow>
                         if ok
                         then (case Get cd txi hash of
                                 Inl e \<Rightarrow>
                                   Return (Some [],
                                     Some (Wrap ''error while retrieving the result'' e))
                               | Inr None \<Rightarrow> Return (Some [], None)
                               | Inr (Some res) \<Rightarrow> Return (Some [Some res], None))
                         else searchConditions cd pl ctx txi conditions))))"

section \<open>Instances of the parameters for the examples\<close>

text \<open>
  The theorems below hold for every planner, hash and codec. The examples, witnesses and
  counterexamples need concrete ones.
\<close>

subsection \<open>A planner\<close>

text \<open>
  Modelled from the spec: the planning helpers \<^verbatim>\<open>dedupMatchEvents\<close>, \<^verbatim>\<open>dedupHeight\<close>,
  \<^verbatim>\<open>LookForRangesWithHeight\<close> and \<^verbatim>\<open>checkHeightConditions\<close>, whose code is not part of
  the sources, after section 4.3 of the spec: a pseudo-condition \<open>match.events = 1\<close> at the
  head of the query switches match-events on; with match-events a repeated
  \<open>tx.height =\<close> condition is dropped and the flags tell whether the query consists of
  height predicates only; the conditions with \<open><\<close>, \<open><=\<close>, \<open>>\<close>, \<open>>=\<close> are collected into
  one range per composite key, a strict integer bound becoming the nearest inclusive one,
  and the height range is returned apart; a key height violates the height information
  when it lies outside the height range, or differs from the height of the equality.
\<close>

definition MatchEventKey :: string where
  "MatchEventKey = ''match.events''"

definition specDedupMatchEvents :: "Condition list \<Rightarrow> Condition list \<times> bool" where
  "specDedupMatchEvents conditions =
     (case conditions of
        [] \<Rightarrow> ([], False)
      | c # cs \<Rightarrow> (conditions, CompositeKey c = MatchEventKey \<and> Op c = OpEqual \<and> Operand c = BigIntValue 1))"

definition isHeightEq :: "Condition \<Rightarrow> bool" where
  "isHeightEq c = (CompositeKey c = TxHeightKey \<and> Op c = OpEqual)"

definition isRangeOp :: "Operator \<Rightarrow> bool" where
  "isRangeOp op = (op = OpLess \<or> op = OpLessEqual \<or> op = OpGreater \<or> op = OpGreaterEqual)"

fun dropHeightEqs :: "Condition list \<Rightarrow> Condition list" where
  "dropHeightEqs [] = []"
| "dropHeightEqs (c # cs) = (if isHeightEq c then dropHeightEqs cs else c # dropHeightEqs cs)"

fun keepFirstHeightEq :: "Condition list \<Rightarrow> Condition list" where
  "keepFirstHeightEq [] = []"
| "keepFirstHeightEq (c # cs) = (if isHeightEq c then c # dropHeightEqs cs else c # keepFirstHeightEq cs)"

definition specDedupHeight :: "Condition list \<Rightarrow> Condition list \<times> HeightInfo" where
  "specDedupHeight conditions =
     (let deduped = keepFirstHeightEq conditions;
          others = filter (\<lambda>c. CompositeKey c \<noteq> MatchEventKey) deduped
      in (deduped,
          (case lookForHeight deduped of
             Return (h, idx) \<Rightarrow> zeroHeightInfo\<lparr>height := h, heightEqIdx := idx\<rparr>
           | Panic m \<Rightarrow> zeroHeightInfo\<lparr>heightEqIdx := - 1\<rparr>)
          \<lparr>onlyHeightEq := others \<noteq> [] \<and> list_all isHeightEq others,
           onlyHeightRange := others \<noteq> []
             \<and> list_all (\<lambda>c. CompositeKey c = TxHeightKey \<and> isRangeOp (Op c)) others\<rparr>))"

fun boundAbove :: "Any \<Rightarrow> Any" where
  "boundAbove (BigIntValue i) = BigIntValue (i + 1)"
| "boundAbove v = v"

fun boundBelow :: "Any \<Rightarrow> Any" where
  "boundBelow (BigIntValue i) = BigIntValue (i - 1)"
| "boundBelow v = v"

definition withBound :: "Condition \<Rightarrow> QueryRange \<Rightarrow> QueryRange" where
  "withBound c qr =
     (case Op c of
        OpGreater \<Rightarrow> qr\<lparr>LowerBoundValue := boundAbove (Operand c)\<rparr>
      | OpGreaterEqual \<Rightarrow> qr\<lparr>LowerBoundValue := Operand c\<rparr>
      | OpLess \<Rightarrow> qr\<lparr>UpperBoundValue := boundBelow (Operand c)\<rparr>
      | OpLessEqual \<Rightarrow> qr\<lparr>UpperBoundValue := Operand c\<rparr>
      | _ \<Rightarrow> qr)"

fun addRange :: "Condition \<Rightarrow> QueryRange list \<Rightarrow> QueryRange list" where
  "addRange c [] =
     [withBound c \<lparr>RangeKey = CompositeKey c, LowerBoundValue = NilValue, UpperBoundValue = NilValue\<rparr>]"
| "addRange c (qr # qrs) =
     (if RangeKey qr = CompositeKey c then withBound c qr # qrs else qr # addRange c qrs)"

fun lookForRangesFrom ::
  "int \<Rightarrow> Condition list \<Rightarrow> QueryRange list \<times> int list \<Rightarrow> QueryRange list \<times> int list" where
  "lookForRangesFrom i [] acc = acc"
| "lookForRangesFrom i (c # cs) (ranges, indexes) =
     (if isRangeOp (Op c) then lookForRangesFrom (i + 1) cs (addRange c ranges, indexes @ [i])
      else lookForRangesFrom (i + 1) cs (ranges, indexes))"

definition specLookForRangesWithHeight ::
  "Condition list \<Rightarrow> QueryRange list \<times> int list \<times> QueryRange" where
  "specLookForRangesWithHeight conditions =
     (case lookForRangesFrom 0 conditions ([], []) of
        (ranges, indexes) \<Rightarrow>
          (ranges, indexes,
           (case find (\<lambda>qr. RangeKey qr = TxHeightKey) ranges of
              Some qr \<Rightarrow> qr
            | None \<Rightarrow> heightRange zeroHeightInfo)))"

definition specCheckHeightConditions :: "HeightInfo \<Rightarrow> int64 \<Rightarrow> bool" where
  "specCheckHeightConditions heightInfo keyHeight =
     (if RangeKey (heightRange heightInfo) \<noteq> []
      then (case asBigInt (LowerBoundValue (heightRange heightInfo)) of
              Some l \<Rightarrow> l \<le> sint keyHeight | None \<Rightarrow> True)
           \<and> (case asBigInt (UpperBoundValue (heightRange heightInfo)) of
                Some u \<Rightarrow> sint keyHeight \<le> u | None \<Rightarrow> True)
      else (sint (height heightInfo) = 0 \<or> keyHeight = height heightInfo))"

definition specPlanner :: Planner where
  "specPlanner =
     \<lparr>dedupMatchEvents = specDedupMatchEvents, dedupHeight = specDedupHeight,
      LookForRangesWithHeight = specLookForRangesWithHeight,
      checkHeightConditions = specCheckHeightConditions\<rparr>"

subsection \<open>A hash and a codec\<close>

text \<open>
  \<open>exampleCodec\<close> stands in for SHA-256 and for protobuf in the examples: a hash that is
  injective and never empty, and a length-prefixed text encoding of a result with its
  decoder.
\<close>

definition encBytes :: "bytes \<Rightarrow> string" where
  "encBytes b = dec_nat (length b) @ '':'' @ b"

definition encNum :: "nat \<Rightarrow> string" where
  "encNum n = dec_nat n @ '';''"

definition decBytes :: "string \<Rightarrow> (bytes \<times> string) option" where
  "decBytes s =
     (case Cut s '':'' of
        None \<Rightarrow> None
      | Some (n, rest) \<Rightarrow>
          (case ParseUint n of
             Inl e \<Rightarrow> None
           | Inr k \<Rightarrow> if k \<le> length rest then Some (take k rest, drop k rest) else None))"

definition decNum :: "string \<Rightarrow> (nat \<times> string) option" where
  "decNum s =
     (case Cut s '';'' of
        None \<Rightarrow> None
      | Some (n, rest) \<Rightarrow> (case ParseUint n of Inl e \<Rightarrow> None | Inr k \<Rightarrow> Some (k, rest)))"

fun decMany :: "(string \<Rightarrow> ('a \<times> string) option) \<Rightarrow> nat \<Rightarrow> string \<Rightarrow> ('a list \<times> string) option" where
  "decMany d n s =
     (if n = 0 then Some ([], s)
      else (case d s of
              None \<Rightarrow> None
            | Some (x, s') \<Rightarrow>
                (case decMany d (n - 1) s' of
                   None \<Rightarrow> None
                 | Some (xs, s'') \<Rightarrow> Some (x # xs, s''))))"

declare decMany.simps [simp del]

definition encAttribute :: "EventAttribute \<Rightarrow> string" where
  "encAttribute a = encBytes (Key a) @ encBytes (Value a) @ (if AttrIndex a then ''1'' else ''0'')"

definition decAttribute :: "string \<Rightarrow> (EventAttribute \<times> string) option" where
  "decAttribute s =
     (case decBytes s of
        None \<Rightarrow> None
      | Some (k, s1) \<Rightarrow>
          (case decBytes s1 of
             None \<Rightarrow> None
           | Some (v, s2) \<Rightarrow>
               (case s2 of
                  [] \<Rightarrow> None
                | c # s3 \<Rightarrow>
                    if c = CHR ''1'' then Some (\<lparr>Key = k, Value = v, AttrIndex = True\<rparr>, s3)
                    else if c = CHR ''0'' then Some (\<lparr>Key = k, Value = v, AttrIndex = False\<rparr>, s3)
                    else None)))"

definition encEvent :: "Event \<Rightarrow> string" where
  "encEvent e =
     encBytes (Type e) @ encNum (length (Attributes e)) @ concat (map encAttribute (Attributes e))"

definition decEvent :: "string \<Rightarrow> (Event \<times> string) option" where
  "decEvent s =
     (case decBytes s of
        None \<Rightarrow> None
      | Some (ty, s1) \<Rightarrow>
          (case decNum s1 of
             None \<Rightarrow> None
           | Some (n, s2) \<Rightarrow>
               (case decMany decAttribute n s2 of
                  None \<Rightarrow> None
                | Some (attrs, s3) \<Rightarrow> Some (\<lparr>Type = ty, Attributes = attrs\<rparr>, s3))))"

definition encTxResult :: "TxResult \<Rightarrow> string" where
  "encTxResult r =
     FormatInt (Height r) @ '';'' @ encNum (unat (TxIdx r)) @ encNum (unat (Code (Result r)))
       @ encBytes (Tx r) @ encNum (length (Events (Result r)))
       @ concat (map encEvent (Events (Result r)))"

definition decTxResult :: "string \<Rightarrow> TxResult option" where
  "decTxResult s =
     (case Cut s '';'' of
        None \<Rightarrow> None
      | Some (h, s1) \<Rightarrow>
          (case ParseInt h of
             Inl e \<Rightarrow> None
           | Inr hh \<Rightarrow>
               (case decNum s1 of
                  None \<Rightarrow> None
                | Some (i, s2) \<Rightarrow>
                    (case decNum s2 of
                       None \<Rightarrow> None
                     | Some (c, s3) \<Rightarrow>
                         (case decBytes s3 of
                            None \<Rightarrow> None
                          | Some (tx, s4) \<Rightarrow>
                              (case decNum s4 of
                                 None \<Rightarrow> None
                               | Some (n, s5) \<Rightarrow>
                                   (case decMany decEvent n s5 of
                                      None \<Rightarrow> None
                                    | Some (evs, s6) \<Rightarrow>
                                        if s6 = [] \<and> i < 2 ^ 32 \<and> c < 2 ^ 32
                                        then Some \<lparr>Height = hh, TxIdx = word_of_nat i, Tx = tx,
                                               Result = \<lparr>Code = word_of_nat c, Events = evs\<rparr>\<rparr>
                                        else None)))))))"

definition exampleCodec :: Codec where
  "exampleCodec =
     \<lparr>Hash = (\<lambda>tx. ''#'' @ tx),
      Marshal = (\<lambda>r. Inr (encTxResult r)),
      Unmarshal = (\<lambda>s. case decTxResult s of
                          None \<Rightarrow> Inl (CodecError ''malformed TxResult'')
                        | Some r \<Rightarrow> Inr r)\<rparr>"

subsection \<open>Example data\<close>

text \<open>\<open>txAt h\<close> is a successful result without events at height \<open>h\<close>.\<close>

definition txAt :: "int64 \<Rightarrow> TxResult" where
  "txAt h = \<lparr>Height = h, TxIdx = 0, Tx = ''tx'' @ FormatInt h, Result = \<lparr>Code = 0, Events = []\<rparr>\<rparr>"

fun indexAll :: "Codec \<Rightarrow> TxResult list \<Rightarrow> TxIndex \<Rightarrow> TxIndex" where
  "indexAll cd [] txi = txi"
| "indexAll cd (r # rs) txi = indexAll cd rs (snd (Index cd r txi))"

definition heightQuery :: "Condition list" where
  "heightQuery =
     [\<lparr>CompositeKey = TxHeightKey, Op = OpGreaterEqual, Operand = BigIntValue 3\<rparr>,
      \<lparr>CompositeKey = TxHeightKey, Op = OpLessEqual, Operand = BigIntValue 7\<rparr>]"

text \<open>
  The scenario of two results for one transaction: \<open>okResult\<close> succeeded at height 10,
  \<open>failedResult\<close> failed at height 20.
\<close>

definition okResult :: TxResult where
  "okResult = \<lparr>Height = 10, TxIdx = 0, Tx = ''tx'', Result = \<lparr>Code = 0, Events = []\<rparr>\<rparr>"

definition failedResult :: TxResult where
  "failedResult = \<lparr>Height = 20, TxIdx = 0, Tx = ''tx'', Result = \<lparr>Code = 1, Events = []\<rparr>\<rparr>"

definition failedAgain :: TxResult where
  "failedAgain = \<lparr>Height = 30, TxIdx = 0, Tx = ''tx'', Result = \<lparr>Code = 2, Events = []\<rparr>\<rparr>"

text \<open>\<open>failedWithEvent\<close> failed too, and carries one event with one indexed attribute.\<close>

definition failedWithEvent :: TxResult where
  "failedWithEvent =
     \<lparr>Height = 20, TxIdx = 0, Tx = ''tx'',
      Result = \<lparr>Code = 1, Events = [\<lparr>Type = ''acc'',
        Attributes = [\<lparr>Key = ''owner'', Value = ''Ivan'', AttrIndex = True\<rparr>]\<rparr>]\<rparr>\<rparr>"

text \<open>The indexer after \<open>okResult\<close> has been indexed into an empty store.\<close>

definition okIndexed :: TxIndex where
  "okIndexed = snd (Index exampleCodec okResult (NewTxIndex []))"

definition hashCondition :: "Operator \<Rightarrow> string \<Rightarrow> Condition" where
  "hashCondition op s = \<lparr>CompositeKey = TxHashKey, Op = op, Operand = StringValue s\<rparr>"

definition ownerCondition :: Condition where
  "ownerCondition = \<lparr>CompositeKey = ''acc.owner'', Op = OpEqual, Operand = StringValue ''Ivan''\<rparr>"

text \<open>
  The store after \<open>txAt 1\<close>, ..., \<open>txAt 10\<close> have been indexed: the by-hash entries, then the
  by-height entries, in key order.
\<close>

definition exampleStore :: DB where
  "exampleStore =
     map (\<lambda>h. (''#tx'' @ FormatInt h, encTxResult (txAt h))) [1, 10, 2, 3, 4, 5, 6, 7, 8, 9]
     @ map (\<lambda>h. (keyForHeight (txAt h), ''#tx'' @ FormatInt h)) [1, 2, 3, 4, 5, 6, 7, 8, 9, 10]"

section \<open>The event entries the spec asks for\<close>

text \<open>
  After section 4.2 of the spec, step 3: the event at position \<open>i\<close> of the list (counted
  from 0) gets the sequence number \<open>seq + i + 1\<close>; an event without a type yields nothing;
  every attribute with a non-empty key and \<open>indexed = true\<close> of an event with a type
  yields one entry, from its by-event-attribute key to the hash, in the order of the list.
\<close>

definition specEventEntries :: "TxResult \<Rightarrow> bytes \<Rightarrow> int64 \<Rightarrow> Batch" where
  "specEventEntries result hash seq =
     concat (map (\<lambda>(i, event).
        if Type event = [] then []
        else map (\<lambda>attr. (keyForEvent (Type event @ ''.'' @ Key attr) (Value attr) result
                               (seq + word_of_nat (i + 1)), hash))
               (filter (\<lambda>attr. Key attr \<noteq> [] \<and> AttrIndex attr) (Attributes event)))
       (enumerate 0 (Events (Result result))))"

text \<open>
  \<open>Index\<close> returns before it indexes anything when the result is not OK and \<open>Get\<close> fails
  or finds an OK result under the hash.
\<close>

definition indexReturnsEarly :: "Codec \<Rightarrow> TxResult \<Rightarrow> TxIndex \<Rightarrow> bool" where
  "indexReturnsEarly cd result txi =
     (Code (Result result) \<noteq> 0
      \<and> (case Get cd txi (Hash cd (Tx result)) of
            Inl err \<Rightarrow> True
          | Inr None \<Rightarrow> False
          | Inr (Some oldResult) \<Rightarrow> Code (Result oldResult) = 0))"

text \<open>
  For a batch: \<open>AddBatch\<close> works through the ops up to and including the first one whose
  marshalling fails (\<open>processedOps\<close>), and returns that error (\<open>firstMarshalError\<close>).
  \<open>eventCount\<close> is the number of events of a list of results. \<open>specBatchEntries\<close> are the
  entries set for the processed ops, a result after the other: its event entries, with the
  sequence numbers continuing from the result before, its by-height entry and, when
  marshalling succeeds, its by-hash entry.
\<close>

definition eventCount :: "TxResult list \<Rightarrow> nat" where
  "eventCount ops = sum_list (map (\<lambda>r. length (Events (Result r))) ops)"

fun processedOps :: "Codec \<Rightarrow> TxResult list \<Rightarrow> TxResult list" where
  "processedOps cd [] = []"
| "processedOps cd (r # ops) =
     (case Marshal cd r of Inl err \<Rightarrow> [r] | Inr rawBytes \<Rightarrow> r # processedOps cd ops)"

fun firstMarshalError :: "Codec \<Rightarrow> TxResult list \<Rightarrow> error option" where
  "firstMarshalError cd [] = None"
| "firstMarshalError cd (r # ops) =
     (case Marshal cd r of Inl err \<Rightarrow> Some err | Inr rawBytes \<Rightarrow> firstMarshalError cd ops)"

fun specBatchEntries :: "Codec \<Rightarrow> TxResult list \<Rightarrow> int64 \<Rightarrow> Batch" where
  "specBatchEntries cd [] seq = []"
| "specBatchEntries cd (r # ops) seq =
     specEventEntries r (Hash cd (Tx r)) seq @ [(keyForHeight r, Hash cd (Tx r))]
       @ (case Marshal cd r of
            Inl err \<Rightarrow> []
          | Inr rawBytes \<Rightarrow>
              (Hash cd (Tx r), rawBytes)
                # specBatchEntries cd ops (seq + word_of_nat (length (Events (Result r)))))"

section \<open>Evaluation\<close>

text \<open>The equations that compute the model on concrete data.\<close>

lemmas eval_keys =
  FormatInt_def dec_int_def FormatUint_def dec_nat.simps digit_char_def Split.simps Count.simps
  HasPrefix_def HasSuffix_def TrimPrefix_def TrimSuffix_def tagKeySeparator_def
  eventSeqSeparator_def TxHeightKey_def TxHashKey_def keyForHeight_def keyForEvent_def
  joinBytes_def joinSizeBytes_def be4_def isTagKey_def extractHeightFromKey_def
  extractValueFromKey_def extractEventSeqFromKey_def Contains_def ParseInt_def ParseUint_def
  digit_val_def char_of_eq_iff Let_def

lemmas eval_codec =
  txAt_def okResult_def failedResult_def failedAgain_def encTxResult_def encNum_def encBytes_def
  exampleCodec_def decTxResult_def decNum_def decBytes_def decMany.simps

lemmas eval_index =
  Index_def indexWrites_def indexEvents_def IsOK_def CodeTypeOK_def batchSet_def WriteSync_def
  NewTxIndex_def Get_def dbGet_def AddBatch_def

lemmas eval_search =
  Search_def searchConditions_def selectDone_def specPlanner_def specDedupMatchEvents_def
  specLookForRangesWithHeight_def specDedupHeight_def specCheckHeightConditions_def
  heightQuery_def lookForHeight_def zeroHeightInfo_def isRangeOp_def withBound_def
  matchRange_def match_def rangeHeights_def Int64_def blockToSearch_def startKey_def
  startKeyForCondition_def Iterator_def IteratePrefix_def setTmpHashes_def intInSlice_def
  MatchEventKey_def isHeightEq_def DecodeString_def fromHexChar_def hashCondition_def
  ownerCondition_def

section \<open>The key codec\<close>

subsection \<open>Splitting at a one-character separator\<close>

lemma Cut_single:
  "Cut s [c] = (if c \<in> set s then Some (takeWhile (\<lambda>x. x \<noteq> c) s, tl (dropWhile (\<lambda>x. x \<noteq> c) s)) else None)"
  by (induction s) (auto simp: HasPrefix_def)

lemma Split_single_notin: "c \<notin> set s \<Longrightarrow> Split s [c] = [s]"
  by (subst Split.simps) (simp add: Cut_single)

lemma Cut_single_app: "c \<notin> set a \<Longrightarrow> Cut (a @ c # b) [c] = Some (a, b)"
  by (induction a) (auto simp: HasPrefix_def)

lemma Split_single_app: "c \<notin> set a \<Longrightarrow> Split (a @ c # b) [c] = a # Split b [c]"
  by (subst Split.simps) (simp add: Cut_single_app)

lemma Split_single_nonempty: "Split s [c] \<noteq> []"
  by (subst Split.simps) (simp split: option.splits)

lemma Split_single_append: "Split (a @ c # b) [c] = Split a [c] @ Split b [c]"
proof (induction a rule: length_induct)
  case (1 a)
  show ?case
  proof (cases "c \<in> set a")
    case False
    then show ?thesis by (simp add: Split_single_app Split_single_notin)
  next
    case True
    then obtain a1 a2 where a: "a = a1 @ c # a2" and n: "c \<notin> set a1"
      by (meson split_list_first)
    have "length a2 < length a" using a by simp
    with 1 have ih: "Split (a2 @ c # b) [c] = Split a2 [c] @ Split b [c]" by blast
    have "Split (a @ c # b) [c] = a1 # Split (a2 @ c # b) [c]"
      using Split_single_app [OF n, of "a2 @ c # b"] a by simp
    also have "\<dots> = (a1 # Split a2 [c]) @ Split b [c]" using ih by simp
    also have "a1 # Split a2 [c] = Split a [c]"
      using Split_single_app [OF n, of a2] a by simp
    finally show ?thesis .
  qed
qed

lemma digit_roundtrip: "d < 10 \<Longrightarrow> digit_val (digit_char d) = Some d"
proof -
  assume "d < 10"
  then have "d \<in> {0, 1, 2, 3, 4, 5, 6, 7, 8, 9}" by auto
  then show ?thesis by (auto simp: digit_char_def digit_val_def)
qed

lemma digit_char_in: "d < 10 \<Longrightarrow> digit_char d \<in> set ''0123456789''"
  unfolding digit_char_def by (rule nth_mem) simp

lemma dec_nat_digits: "set (dec_nat n) \<subseteq> set ''0123456789''"
proof (induction n rule: dec_nat.induct)
  case (1 n)
  show ?case
  proof (cases "n < 10")
    case True
    then show ?thesis using digit_char_in [of n] by (subst dec_nat.simps) simp
  next
    case False
    have "n mod 10 < 10" by simp
    from digit_char_in [OF this] 1 [OF False] False show ?thesis
      by (subst dec_nat.simps) simp
  qed
qed

lemma dec_nat_nonempty: "dec_nat n \<noteq> []"
  by (subst dec_nat.simps) simp

lemma parseUintLoop_append:
  "parseUintLoop (xs @ ys) n =
     (case parseUintLoop xs n of Inl e \<Rightarrow> Inl e | Inr m \<Rightarrow> parseUintLoop ys m)"
  by (induction xs arbitrary: n) (auto split: option.splits)

lemma parse_dec_nat: "m < 2 ^ 64 \<Longrightarrow> parseUintLoop (dec_nat m) 0 = Inr m"
proof (induction m rule: dec_nat.induct)
  case (1 n)
  show ?case
  proof (cases "n < 10")
    case True
    then show ?thesis
      by (subst dec_nat.simps) (simp add: digit_roundtrip)
  next
    case False
    have lt: "n div 10 < 2 ^ 64" using "1.prems" by simp
    have md: "n mod 10 < 10" by simp
    have c1: "\<not> n div 10 \<ge> 2 ^ 64 div 10 + 1" using "1.prems" by simp
    have c2: "\<not> 10 * (n div 10) + n mod 10 \<ge> 2 ^ 64" using "1.prems" by simp
    show ?thesis
      using False "1.IH" [OF False lt] c1 c2 digit_roundtrip [OF md]
      by (subst dec_nat.simps) (simp add: parseUintLoop_append)
  qed
qed

lemma hd_dec_nat_digit: "hd (dec_nat n) \<in> set ''0123456789''"
  using dec_nat_digits [of n] dec_nat_nonempty [of n] hd_in_set by blast

lemma ParseUint_dec_nat: "m < 2 ^ 64 \<Longrightarrow> ParseUint (dec_nat m) = Inr m"
  by (simp add: ParseUint_def dec_nat_nonempty parse_dec_nat)

lemma ParseInt_FormatInt: "ParseInt (FormatInt h) = Inr h"
proof (cases "sint h < 0")
  case True
  define m where "m = nat (- sint h)"
  have lo: "- (2 ^ 63) \<le> sint h" using sint_ge [of h] by simp
  have m_le: "m \<le> 2 ^ 63" using lo True by (simp add: m_def)
  then have m_lt: "m < 2 ^ 64" by simp
  have w: "(word_of_nat m :: int64) = - h"
    using True by (simp add: m_def)
  show ?thesis
    using True m_le w
    by (simp add: FormatInt_def dec_int_def ParseInt_def ParseUint_dec_nat [OF m_lt] m_def [symmetric])
next
  case False
  define m where "m = nat (sint h)"
  have hi: "sint h < 2 ^ 63" using sint_lt [of h] by simp
  have m_lt63: "m < 2 ^ 63" using hi False by (simp add: m_def)
  then have m_lt: "m < 2 ^ 64" by simp
  have w: "(word_of_nat m :: int64) = h"
    using False by (simp add: m_def)
  have "hd (dec_nat m) \<noteq> CHR ''-''" "hd (dec_nat m) \<noteq> CHR ''+''"
    using hd_dec_nat_digit [of m] by auto
  then show ?thesis
    using False m_lt63 w
    by (simp add: FormatInt_def dec_int_def ParseInt_def ParseUint_dec_nat [OF m_lt] m_def [symmetric]
        dec_nat_nonempty)
qed

lemma slash_notin_dec_nat: "CHR ''/'' \<notin> set (dec_nat n)"
  using dec_nat_digits [of n] by auto

lemma slash_notin_FormatInt: "CHR ''/'' \<notin> set (FormatInt h)"
  by (simp add: FormatInt_def dec_int_def slash_notin_dec_nat)

lemma slash_notin_FormatUint: "CHR ''/'' \<notin> set (FormatUint h)"
  by (simp add: FormatUint_def slash_notin_dec_nat)

lemma Split_key_shape:
  assumes "CHR ''/'' \<notin> set H" and "CHR ''/'' \<notin> set R"
  shows "Split (X @ ''/'' @ H @ ''/'' @ R) ''/'' = Split X ''/'' @ [H, R]"
proof -
  have "Split (H @ CHR ''/'' # R) ''/'' = [H, R]"
    using assms by (simp add: Split_single_app Split_single_notin)
  then show ?thesis
    using Split_single_append [of X "CHR ''/''" "H @ ''/'' @ R"] by simp
qed

lemma joinBytes_concat: "joinBytes s = concat s"
  by (simp add: joinBytes_def joinSizeBytes_def length_concat)

text \<open>Both index keys end in the fields height, then index and event sequence.\<close>

lemma keyForHeight_shape:
  "keyForHeight r =
     (TxHeightKey @ ''/'' @ be4 (Height r)) @ ''/'' @ FormatInt (Height r) @ ''/''
       @ (FormatUint (TxIdx r) @ eventSeqSeparator @ ''0'')"
  by (simp add: keyForHeight_def joinBytes_concat tagKeySeparator_def)

lemma keyForEvent_shape:
  "keyForEvent k v r s =
     (k @ ''/'' @ v) @ ''/'' @ FormatInt (Height r) @ ''/''
       @ (FormatUint (TxIdx r) @ eventSeqSeparator @ FormatInt s)"
  by (simp add: keyForEvent_def)

lemma Split_keyForHeight:
  "Split (keyForHeight r) ''/'' =
     Split (TxHeightKey @ ''/'' @ be4 (Height r)) ''/''
       @ [FormatInt (Height r), FormatUint (TxIdx r) @ eventSeqSeparator @ ''0'']"
  unfolding keyForHeight_shape
  by (rule Split_key_shape)
    (simp_all add: slash_notin_FormatInt slash_notin_FormatUint eventSeqSeparator_def)

lemma Split_keyForEvent:
  "Split (keyForEvent k v r s) ''/'' =
     Split (k @ ''/'' @ v) ''/''
       @ [FormatInt (Height r), FormatUint (TxIdx r) @ eventSeqSeparator @ FormatInt s]"
  unfolding keyForEvent_shape
  by (rule Split_key_shape)
    (simp_all add: slash_notin_FormatInt slash_notin_FormatUint eventSeqSeparator_def)

lemma extractHeight_tail:
  assumes "Split key ''/'' = ps @ [FormatInt h, R]"
  shows "extractHeightFromKey key = Return (Inr h)"
  using assms by (simp add: extractHeightFromKey_def tagKeySeparator_def ParseInt_FormatInt nth_append)

subsection \<open>Round trips\<close>

text \<open>
  C7 (height round-trip). For every result \<open>r\<close>, \<open>extractHeightFromKey\<close> of the by-height
  key of \<open>r\<close> returns the height of \<open>r\<close>; and in every by-event-attribute key
  \<open>keyForEvent k v r s\<close> the second-to-last field between separators is the decimal
  rendering of the height of \<open>r\<close>, which \<open>ParseInt\<close> and hence \<open>extractHeightFromKey\<close> read
  back. This holds for every 64-bit height, so in particular for the positive ones, and
  whatever separators the key \<open>k\<close>, the value \<open>v\<close> or the four height bytes contain.
\<close>

theorem height_round_trip:
  "extractHeightFromKey (keyForHeight r) = Return (Inr (Height r))
   \<and> extractHeightFromKey (keyForEvent k v r s) = Return (Inr (Height r))
   \<and> (let parts = Split (keyForEvent k v r s) tagKeySeparator
      in 2 \<le> length parts \<and> parts ! (length parts - 2) = FormatInt (Height r)
         \<and> ParseInt (parts ! (length parts - 2)) = Inr (Height r))"
  by (simp add: extractHeight_tail [OF Split_keyForHeight] extractHeight_tail [OF Split_keyForEvent]
      Split_keyForEvent tagKeySeparator_def nth_append ParseInt_FormatInt)

lemma extractValue_defined:
  "\<exists>x. extractValueFromKey (keyForEvent k v r s) = Return x"
proof -
  have "2 \<le> length (Split (keyForEvent k v r s) tagKeySeparator)"
    by (simp add: Split_keyForEvent tagKeySeparator_def)
  then show ?thesis
    by (simp add: extractValueFromKey_def Let_def)
qed

lemma extractValue_exact:
  assumes "CHR ''/'' \<notin> set k"
  shows "extractValueFromKey (keyForEvent k v r s) = Return v"
proof -
  let ?H = "FormatInt (Height r)"
  let ?R = "FormatUint (TxIdx r) @ eventSeqSeparator @ FormatInt s"
  let ?key = "keyForEvent k v r s"
  have parts: "Split ?key ''/'' = k # Split v ''/'' @ [?H, ?R]"
    using Split_single_app [OF assms, of v] by (simp add: Split_keyForEvent)
  have key: "?key = (k @ ''/'') @ v @ (''/'' @ ?H @ ''/'' @ ?R)"
    by (simp add: keyForEvent_def)
  have pre: "TrimPrefix ?key (k @ ''/'') = v @ (''/'' @ ?H @ ''/'' @ ?R)"
    unfolding key by (simp add: TrimPrefix_def HasPrefix_def)
  have suf: "TrimSuffix (v @ (''/'' @ ?H @ ''/'' @ ?R)) (''/'' @ ?H @ ''/'' @ ?R) = v"
    by (simp add: TrimSuffix_def HasSuffix_def)
  have len: "length (Split ?key ''/'') = length (Split v ''/'') + 3" using parts by simp
  have last1: "Split ?key ''/'' ! (length (Split ?key ''/'') - 1) = ?R"
    unfolding parts by (simp add: nth_append nth_Cons')
  have last2: "Split ?key ''/'' ! (length (Split ?key ''/'') - 2) = ?H"
    unfolding parts by (simp add: nth_append nth_Cons')
  have first: "Split ?key ''/'' ! 0 = k" unfolding parts by simp
  have "\<not> length (Split ?key ''/'') < 2" using len by simp
  then show ?thesis
    unfolding extractValueFromKey_def tagKeySeparator_def Let_def last1 last2 first pre
    by (simp add: TrimSuffix_def HasSuffix_def)
qed

text \<open>
  C8 (value round-trip), as amended. For every key \<open>keyForEvent k v r s\<close>,
  \<open>extractValueFromKey\<close> returns a value (it does not panic); and whenever the composite
  key \<open>k\<close> contains no separator, the value it returns is \<open>v\<close> exactly. The value \<open>v\<close> may
  itself contain separators.
\<close>

theorem value_round_trip:
  "(\<exists>x. extractValueFromKey (keyForEvent k v r s) = Return x)
   \<and> (CHR ''/'' \<notin> set k \<longrightarrow> extractValueFromKey (keyForEvent k v r s) = Return v)"
  using extractValue_defined extractValue_exact by blast

text \<open>The amended claim at the composite key \<open>acc.owner\<close> and a value with a separator.\<close>

theorem value_round_trip_witness:
  "CHR ''/'' \<notin> set ''acc.owner''
   \<and> extractValueFromKey (keyForEvent ''acc.owner'' ''Iv/an'' (txAt 5) 1) = Return ''Iv/an''"
  using value_round_trip [of "''acc.owner''" "''Iv/an''" "txAt 5" 1] by simp

text \<open>
  The claim as stated asks only that the value has no separator. For the event type
  \<open>a/b\<close>, the attribute key \<open>c\<close> and the value \<open>v\<close>, the extracted value is \<open>b.c/v\<close>.
\<close>

theorem value_round_trip_counterexample:
  "CHR ''/'' \<notin> set ''v''
   \<and> extractValueFromKey (keyForEvent ''a/b.c'' ''v'' (txAt 5) 1) = Return ''b.c/v''
   \<and> extractValueFromKey (keyForEvent ''a/b.c'' ''v'' (txAt 5) 1) \<noteq> Return ''v''"
  by (simp add: eval_keys txAt_def)

section \<open>The write path\<close>

lemma map_of_dbSet: "map_of (dbSet k v db) = (map_of db)(k \<mapsto> v)"
  by (induction db) (auto simp: fun_eq_iff)

lemma WriteSync_snoc: "WriteSync (b @ [(k, v)]) db = dbSet k v (WriteSync b db)"
  by (simp add: WriteSync_def)

lemma dbGet_WriteSync_last: "dbGet (WriteSync (batchSet b k v) db) k = Some v"
  by (simp add: dbGet_def batchSet_def WriteSync_snoc map_of_dbSet)

lemma indexWrites_success:
  assumes "indexWrites cd r h txi = (None, txi')"
  obtains raw where "Marshal cd r = Inr raw" and "dbGet (store txi') h = Some raw"
proof -
  obtain seq b where ev: "indexEvents r h (eventSeq txi, []) = (seq, b)"
    by (cases "indexEvents r h (eventSeq txi, [])")
  from assms ev obtain raw where m: "Marshal cd r = Inr raw"
    by (auto simp: indexWrites_def Let_def split: sum.splits)
  with assms ev
  have "store txi' = WriteSync (batchSet (batchSet b (keyForHeight r) h) h raw) (store txi)"
    by (auto simp: indexWrites_def Let_def)
  then have "dbGet (store txi') h = Some raw"
    by (simp add: dbGet_WriteSync_last)
  with m that show ?thesis by blast
qed

text \<open>
  C1 (success-preservation). Let \<open>r1\<close> and \<open>r2\<close> be results whose transactions have the
  same hash \<open>H\<close>, \<open>r1\<close> with code 0 and \<open>r2\<close> with another code. If \<open>Index r1\<close> succeeds and
  leaves the indexer in state \<open>txi1\<close>, then \<open>Index r2\<close> in that state returns no error and
  leaves the state as it is (no key written, the event counter untouched), and \<open>Get H\<close>
  still returns \<open>r1\<close>. What is assumed of the other packages: the hash is not empty, and
  the bytes \<open>Marshal\<close> produced for \<open>r1\<close> decode to \<open>r1\<close>.
\<close>

theorem success_preservation:
  assumes "Hash cd (Tx r1) = H" and "Hash cd (Tx r2) = H" and "H \<noteq> []"
    and "Code (Result r1) = 0" and "Code (Result r2) \<noteq> 0"
    and "Index cd r1 txi = (None, txi1)"
    and "Marshal cd r1 = Inr raw" and "Unmarshal cd raw = Inr r1"
  shows "Index cd r2 txi1 = (None, txi1) \<and> Get cd txi1 H = Inr (Some r1)"
proof -
  from assms have "indexWrites cd r1 H txi = (None, txi1)"
    by (simp add: Index_def IsOK_def CodeTypeOK_def)
  then obtain raw' where m: "Marshal cd r1 = Inr raw'" and g: "dbGet (store txi1) H = Some raw'"
    by (rule indexWrites_success)
  from m assms have "raw' = raw" by simp
  with g assms have get: "Get cd txi1 H = Inr (Some r1)"
    by (simp add: Get_def)
  from get assms have "Index cd r2 txi1 = (None, txi1)"
    by (simp add: Index_def IsOK_def CodeTypeOK_def)
  with get assms show ?thesis by simp
qed

text \<open>
  The scenario S1 of the spec: a success at height 10, then a failure at height 20 for
  the same transaction; the entry read back has code 0 and height 10.
\<close>

theorem success_preservation_witness:
  "Index exampleCodec failedResult okIndexed = (None, okIndexed)
   \<and> Get exampleCodec okIndexed ''#tx'' = Inr (Some okResult)
   \<and> Code (Result okResult) = 0 \<and> Height okResult = 10"
proof -
  have h1: "Hash exampleCodec (Tx okResult) = ''#tx''"
    and h2: "Hash exampleCodec (Tx failedResult) = ''#tx''"
    by (simp_all add: exampleCodec_def okResult_def failedResult_def)
  have ne: "''#tx'' \<noteq> []" by simp
  have c1: "Code (Result okResult) = 0" and c2: "Code (Result failedResult) \<noteq> 0"
    by (simp_all add: okResult_def failedResult_def)
  have "fst (Index exampleCodec okResult (NewTxIndex [])) = None"
    by (simp add: eval_index exampleCodec_def okResult_def Let_def)
  then have i1: "Index exampleCodec okResult (NewTxIndex []) = (None, okIndexed)"
    by (simp add: prod_eq_iff okIndexed_def)
  have m: "Marshal exampleCodec okResult = Inr ''10;0;0;2:tx0;''"
    by (simp add: eval_keys eval_codec)
  have u: "Unmarshal exampleCodec ''10;0;0;2:tx0;'' = Inr okResult"
    by (simp add: eval_keys eval_codec)
  show ?thesis
    using success_preservation [OF h1 h2 ne c1 c2 i1 m u]
    by (simp add: okResult_def)
qed

subsection \<open>The event entries\<close>

lemma indexAttributes_eq:
  "indexAttributes ty attrs result hash seq b =
     b @ map (\<lambda>attr. (keyForEvent (ty @ ''.'' @ Key attr) (Value attr) result seq, hash))
           (filter (\<lambda>attr. Key attr \<noteq> [] \<and> AttrIndex attr) attrs)"
  by (induction attrs arbitrary: b) (simp_all add: batchSet_def Let_def)

lemma indexEventsLoop_eq:
  "indexEventsLoop events result hash (seq, b) =
     (seq + word_of_nat (length events),
      b @ concat (map (\<lambda>(i, event).
            if Type event = [] then []
            else map (\<lambda>attr. (keyForEvent (Type event @ ''.'' @ Key attr) (Value attr) result
                                   (seq + word_of_nat (i + 1)), hash))
                   (filter (\<lambda>attr. Key attr \<noteq> [] \<and> AttrIndex attr) (Attributes event)))
           (enumerate 0 events)))"
proof (induction events arbitrary: seq b)
  case Nil
  then show ?case by simp
next
  case (Cons e es)
  show ?case
    by (simp add: Cons.IH Let_def indexAttributes_eq enumerate_Suc_eq [of 0] comp_def
        case_prod_beta algebra_simps cong: if_cong)
qed

section \<open>The range scan\<close>

lemma rangeHeights_lower:
  assumes "rangeHeights a b = Some (l, u)"
  shows "1 \<le> sint l"
proof -
  from assms obtain x where "l = (if sint (Int64 x) < 1 then 1 else Int64 x)"
    by (auto simp: rangeHeights_def Let_def split: option.splits prod.splits)
  then show ?thesis by (cases "sint (Int64 x) < 1") simp_all
qed

lemma sint_diff_no_wrap:
  fixes l u :: int64
  assumes "1 \<le> sint l" and "sint l \<le> sint u"
  shows "sint (u - l) = sint u - sint l"
proof -
  have "sint u < 2 ^ 63" using sint_lt [of u] by simp
  with assms have "- (2 ^ 63) \<le> sint u - sint l" "sint u - sint l < 2 ^ 63" by simp_all
  then have "signed_take_bit 63 (sint u - sint l) = sint u - sint l"
    by (simp add: signed_take_bit_int_eq_self)
  then show ?thesis by (simp add: sint_word_ariths)
qed

text \<open>
  C6 (block-window guard). Let \<open>lowerHeight\<close> and \<open>upperHeight\<close> be the bounds \<open>matchRange\<close>
  computes for the range: a missing lower bound replaced by the upper one minus 4999, a
  missing upper bound by the lower one plus 4999, both taken as \<open>int64\<close>, the lower one
  raised to 1 (this is \<open>rangeHeights\<close>). If \<open>lowerHeight > upperHeight\<close> or
  \<open>upperHeight - lowerHeight > 5000\<close>, then \<open>matchRange\<close> returns the filter set it was
  given, as it is, and no select has been made. \<open>matchRange\<close> has no other result: the
  source calls the store only to iterate, and here not even that.
\<close>

theorem block_window_guard:
  assumes "rangeHeights (asBigInt (LowerBoundValue qr)) (asBigInt (UpperBoundValue qr))
             = Some (lowerHeight, upperHeight)"
    and "sint lowerHeight > sint upperHeight \<or> sint upperHeight - sint lowerHeight > 5000"
  shows "matchRange pl ctx txi qr startKeyBz filteredHashes firstRun matchEvents heightInfo n
           = Return (filteredHashes, n)"
proof (cases "sint lowerHeight > sint upperHeight")
  case True
  with assms(1) show ?thesis by (simp add: matchRange_def)
next
  case False
  with assms(2) have big: "sint upperHeight - sint lowerHeight > 5000" by simp
  from False rangeHeights_lower [OF assms(1)]
  have "sint (upperHeight - lowerHeight) = sint upperHeight - sint lowerHeight"
    by (intro sint_diff_no_wrap) simp_all
  with big assms(1) show ?thesis by (simp add: matchRange_def blockToSearch_def)
qed

text \<open>
  The second query of the scenario S4: heights 1 to 10000 exceed the window, and the
  filter set comes back unchanged.
\<close>

theorem block_window_guard_witness:
  "matchRange specPlanner (\<lambda>n. False) (NewTxIndex [])
     \<lparr>RangeKey = TxHeightKey, LowerBoundValue = BigIntValue 1, UpperBoundValue = BigIntValue 10000\<rparr>
     ''tx.height/'' [(''#tx'', ''#tx'')] False False zeroHeightInfo 1
   = Return ([(''#tx'', ''#tx'')], 1)"
proof -
  have r: "rangeHeights
             (asBigInt (LowerBoundValue \<lparr>RangeKey = TxHeightKey, LowerBoundValue = BigIntValue 1,
                UpperBoundValue = BigIntValue 10000\<rparr>))
             (asBigInt (UpperBoundValue \<lparr>RangeKey = TxHeightKey, LowerBoundValue = BigIntValue 1,
                UpperBoundValue = BigIntValue 10000\<rparr>)) = Some (1, 10000)"
    by (simp add: rangeHeights_def Int64_def blockToSearch_def)
  have w: "sint (1 :: int64) > sint (10000 :: int64) \<or> sint (10000 :: int64) - sint (1 :: int64) > 5000"
    by simp
  show ?thesis by (rule block_window_guard [OF r w])
qed

section \<open>AddBatch\<close>

lemma Count_single: "Count s [c] = length (filter (\<lambda>x. x = c) s)"
proof (induction s rule: length_induct)
  case (1 s)
  show ?case
  proof (cases "c \<in> set s")
    case False
    then have "filter (\<lambda>x. x = c) s = []" by (auto simp: filter_empty_conv)
    with False show ?thesis by (subst Count.simps) (simp add: Cut_single)
  next
    case True
    then obtain a b where s: "s = a @ c # b" and n: "c \<notin> set a"
      by (meson split_list_first)
    have "length b < length s" using s by simp
    with 1 have ih: "Count b [c] = length (filter (\<lambda>x. x = c) b)" by blast
    have "filter (\<lambda>x. x = c) a = []" using n by (auto simp: filter_empty_conv)
    then show ?thesis
      unfolding s by (subst Count.simps) (simp add: Cut_single_app [OF n] ih)
  qed
qed

lemma isTagKey_keyForEvent: "isTagKey (keyForEvent k v r s)"
  by (simp add: isTagKey_def tagKeySeparator_def Count_single keyForEvent_def)

lemma isTagKey_keyForHeight: "isTagKey (keyForHeight r)"
  by (simp add: isTagKey_def tagKeySeparator_def Count_single keyForHeight_shape TxHeightKey_def)

lemma map_of_WriteSync:
  "map_of (WriteSync b db) k = (case map_of (rev b) k of Some v \<Rightarrow> Some v | None \<Rightarrow> map_of db k)"
proof (induction b rule: rev_induct)
  case Nil
  then show ?case by (simp add: WriteSync_def)
next
  case (snoc x xs)
  obtain k' v' where x: "x = (k', v')" by (cases x)
  show ?case unfolding x by (simp add: WriteSync_snoc map_of_dbSet snoc.IH)
qed

lemma specEventEntries_keys:
  "(k, v) \<in> set (specEventEntries result hash seq) \<Longrightarrow> isTagKey k"
  by (auto simp: specEventEntries_def isTagKey_keyForEvent split: if_splits)

text \<open>What a run of the loop of \<open>AddBatch\<close> appends: tag keys, and the hashes of its ops.\<close>

lemma addBatchLoop_appends:
  "addBatchLoop cd ops (seq, b) = (e, seq', b') \<Longrightarrow>
     \<exists>w. b' = b @ w \<and> (\<forall>(k, v) \<in> set w. isTagKey k \<or> k \<in> (\<lambda>r. Hash cd (Tx r)) ` set ops)"
proof (induction ops arbitrary: seq b)
  case Nil
  then show ?case by simp
next
  case (Cons r ops)
  let ?h = "Hash cd (Tx r)"
  let ?seq = "seq + word_of_nat (length (Events (Result r)))"
  let ?ev = "specEventEntries r ?h seq"
  show ?case
  proof (cases "Marshal cd r")
    case (Inl err)
    with Cons.prems have "b' = b @ (?ev @ [(keyForHeight r, ?h)])"
      by (simp add: indexEvents_def indexEventsLoop_eq specEventEntries_def batchSet_def Let_def)
    moreover have "\<forall>(k, v) \<in> set (?ev @ [(keyForHeight r, ?h)]). isTagKey k"
      by (auto simp: isTagKey_keyForHeight dest: specEventEntries_keys)
    ultimately show ?thesis by blast
  next
    case (Inr raw)
    let ?w1 = "?ev @ [(keyForHeight r, ?h), (?h, raw)]"
    from Cons.prems Inr have "addBatchLoop cd ops (?seq, b @ ?w1) = (e, seq', b')"
      by (simp add: indexEvents_def indexEventsLoop_eq specEventEntries_def batchSet_def Let_def)
    from Cons.IH [OF this] obtain w where w: "b' = (b @ ?w1) @ w"
      and keys: "\<forall>(k, v) \<in> set w. isTagKey k \<or> k \<in> (\<lambda>r. Hash cd (Tx r)) ` set ops"
      by blast
    have "\<forall>(k, v) \<in> set ?w1. isTagKey k \<or> k = ?h"
      by (auto simp: isTagKey_keyForHeight dest: specEventEntries_keys)
    with keys have "\<forall>(k, v) \<in> set (?w1 @ w). isTagKey k \<or> k \<in> (\<lambda>r. Hash cd (Tx r)) ` set (r # ops)"
      by auto
    with w show ?thesis by (intro exI [of _ "?w1 @ w"]) simp
  qed
qed

lemma addBatchLoop_append:
  "addBatchLoop cd (xs @ ys) (seq, b) =
     (case addBatchLoop cd xs (seq, b) of
        (Some e, st) \<Rightarrow> (Some e, st)
      | (None, seq', b') \<Rightarrow> addBatchLoop cd ys (seq', b'))"
  by (induction xs arbitrary: seq b) (auto simp: Let_def split: prod.splits sum.splits option.splits)

text \<open>In a successful batch the by-hash entry of an op is followed by the writes of the later ops only.\<close>

lemma addBatchLoop_split:
  assumes "addBatchLoop cd (pre @ r # post) (seq, b) = (None, seq', b')"
  obtains raw b1 w where "Marshal cd r = Inr raw"
    and "b' = b1 @ [(Hash cd (Tx r), raw)] @ w"
    and "\<forall>(k, v) \<in> set w. isTagKey k \<or> k \<in> (\<lambda>r. Hash cd (Tx r)) ` set post"
proof -
  obtain e1 s1 b1 where pre: "addBatchLoop cd pre (seq, b) = (e1, s1, b1)"
    by (cases "addBatchLoop cd pre (seq, b)")
  with assms have e1: "e1 = None" and rest: "addBatchLoop cd (r # post) (s1, b1) = (None, seq', b')"
    by (auto simp: addBatchLoop_append split: option.splits)
  let ?h = "Hash cd (Tx r)"
  let ?seq = "s1 + word_of_nat (length (Events (Result r)))"
  let ?ev = "specEventEntries r ?h s1"
  from rest obtain raw where m: "Marshal cd r = Inr raw"
    by (cases "Marshal cd r") (auto simp: Let_def split: prod.splits)
  let ?b2 = "b1 @ ?ev @ [(keyForHeight r, ?h)]"
  from rest m have "addBatchLoop cd post (?seq, ?b2 @ [(?h, raw)]) = (None, seq', b')"
    by (simp add: indexEvents_def indexEventsLoop_eq specEventEntries_def batchSet_def Let_def)
  from addBatchLoop_appends [OF this] obtain w where "b' = (?b2 @ [(?h, raw)]) @ w"
    and "\<forall>(k, v) \<in> set w. isTagKey k \<or> k \<in> (\<lambda>r. Hash cd (Tx r)) ` set post"
    by blast
  with m that [of raw ?b2 w] show ?thesis by simp
qed

lemma okIndexed_eq:
  "okIndexed = \<lparr>store = [(''#tx'', ''10;0;0;2:tx0;''), (keyForHeight okResult, ''#tx'')],
                 eventSeq = 0\<rparr>"
  by (simp add: okIndexed_def eval_index eval_keys eval_codec)

lemma Get_okIndexed: "Get exampleCodec okIndexed ''#tx'' = Inr (Some okResult)"
  by (simp add: okIndexed_eq Get_def dbGet_def eval_keys eval_codec)

lemma Marshal_failedResult: "Marshal exampleCodec failedResult = Inr ''20;0;1;2:tx0;''"
  by (simp add: eval_keys eval_codec)

lemma Unmarshal_failedResult: "Unmarshal exampleCodec ''20;0;1;2:tx0;'' = Inr failedResult"
  by (simp add: eval_keys eval_codec)

lemma not_tag_key: "\<not> isTagKey ''#tx''"
  by (simp add: eval_keys)

text \<open>
  C3 (AddBatch is last-writer-wins), as amended. Let the store hold under the hash \<open>H\<close>
  a result \<open>r1\<close> with code 0, and let a batch contain a result \<open>r2\<close> with hash \<open>H\<close> and a
  code other than 0 such that no later op of the batch has the hash \<open>H\<close>. If \<open>AddBatch\<close>
  succeeds, \<open>Get H\<close> returns \<open>r2\<close> and not \<open>r1\<close>: the success-preservation rule of \<open>Index\<close>
  is not applied. What is assumed besides: the hash is not empty, the bytes marshalled
  for \<open>r2\<close> decode to \<open>r2\<close>, and \<open>H\<close> is no tag key (fewer than three separators), so that
  no by-height or by-event entry written later in the batch lands on the key \<open>H\<close>.
\<close>

theorem addBatch_last_writer_wins:
  assumes "AddBatch cd (pre @ r2 # post) txi = (None, txi')"
    and "Hash cd (Tx r2) = H" and "H \<noteq> []"
    and "list_all (\<lambda>r. Hash cd (Tx r) \<noteq> H) post"
    and "\<not> isTagKey H"
    and "Get cd txi H = Inr (Some r1)" and "Code (Result r1) = 0" and "Code (Result r2) \<noteq> 0"
    and "Marshal cd r2 = Inr raw" and "Unmarshal cd raw = Inr r2"
  shows "Get cd txi' H = Inr (Some r2) \<and> r2 \<noteq> r1"
proof -
  obtain e seq' b' where loop: "addBatchLoop cd (pre @ r2 # post) (eventSeq txi, []) = (e, seq', b')"
    by (cases "addBatchLoop cd (pre @ r2 # post) (eventSeq txi, [])")
  with assms(1) have e: "e = None" and st: "store txi' = WriteSync b' (store txi)"
    by (auto simp: AddBatch_def split: option.splits)
  from loop e obtain raw' b1 w where m: "Marshal cd r2 = Inr raw'"
    and b': "b' = b1 @ [(Hash cd (Tx r2), raw')] @ w"
    and keys: "\<forall>(k, v) \<in> set w. isTagKey k \<or> k \<in> (\<lambda>r. Hash cd (Tx r)) ` set post"
    by (auto elim: addBatchLoop_split)
  from m assms have raw: "raw' = raw" by simp
  have "H \<notin> fst ` set w"
  proof
    assume "H \<in> fst ` set w"
    then obtain v where "(H, v) \<in> set w" by auto
    with keys have "isTagKey H \<or> H \<in> (\<lambda>r. Hash cd (Tx r)) ` set post" by auto
    with assms(4,5) show False by (auto simp: list_all_iff)
  qed
  then have "map_of (rev w) H = None" by (simp add: map_of_eq_None_iff)
  then have "map_of (rev b') H = Some raw"
    unfolding b' raw using assms(2) by (simp add: map_add_def)
  then have "dbGet (store txi') H = Some raw"
    by (simp add: st dbGet_def map_of_WriteSync)
  with assms have "Get cd txi' H = Inr (Some r2)" by (simp add: Get_def)
  moreover from assms have "r2 \<noteq> r1" by auto
  ultimately show ?thesis by simp
qed

text \<open>
  A batch of three ops on the store that holds \<open>okResult\<close>: the failed result for the
  same transaction stands in the middle and replaces the successful one.
\<close>

theorem addBatch_last_writer_wins_witness:
  "Get exampleCodec (snd (AddBatch exampleCodec [txAt 1, failedResult, txAt 2] okIndexed)) ''#tx''
     = Inr (Some failedResult)
   \<and> failedResult \<noteq> okResult"
proof -
  have "fst (AddBatch exampleCodec [txAt 1, failedResult, txAt 2] okIndexed) = None"
    by (simp add: AddBatch_def indexEvents_def batchSet_def exampleCodec_def txAt_def
        failedResult_def Let_def)
  then have a: "AddBatch exampleCodec ([txAt 1] @ failedResult # [txAt 2]) okIndexed
                  = (None, snd (AddBatch exampleCodec [txAt 1, failedResult, txAt 2] okIndexed))"
    by (simp add: prod_eq_iff)
  have h: "Hash exampleCodec (Tx failedResult) = ''#tx''"
    by (simp add: exampleCodec_def failedResult_def)
  have ne: "''#tx'' \<noteq> []" by simp
  have post: "list_all (\<lambda>r. Hash exampleCodec (Tx r) \<noteq> ''#tx'') [txAt 2]"
    by (simp add: exampleCodec_def txAt_def eval_keys)
  have c1: "Code (Result okResult) = 0" and c2: "Code (Result failedResult) \<noteq> 0"
    by (simp_all add: okResult_def failedResult_def)
  show ?thesis
    by (rule addBatch_last_writer_wins [OF a h ne post not_tag_key Get_okIndexed c1 c2
          Marshal_failedResult Unmarshal_failedResult])
qed

text \<open>
  The claim as stated speaks of every batch that contains such an \<open>r2\<close>. In the batch of
  \<open>failedResult\<close> followed by \<open>failedAgain\<close>, both for the transaction of \<open>okResult\<close>, the
  result read back is \<open>failedAgain\<close>, the last writer, not \<open>failedResult\<close>.
\<close>

theorem addBatch_last_writer_wins_counterexample:
  "Code (Result failedResult) \<noteq> 0
   \<and> Hash exampleCodec (Tx failedResult) = ''#tx''
   \<and> Get exampleCodec okIndexed ''#tx'' = Inr (Some okResult)
   \<and> Code (Result okResult) = 0
   \<and> fst (AddBatch exampleCodec [failedResult, failedAgain] okIndexed) = None
   \<and> Get exampleCodec (snd (AddBatch exampleCodec [failedResult, failedAgain] okIndexed)) ''#tx''
       = Inr (Some failedAgain)
   \<and> failedAgain \<noteq> failedResult"
  by (simp add: Get_okIndexed okIndexed_eq eval_index eval_keys eval_codec failedAgain_def)

section \<open>The event-index discipline of Index and AddBatch\<close>

lemma indexEvents_eq:
  "indexEvents result hash (seq, b) =
     (seq + word_of_nat (length (Events (Result result))), b @ specEventEntries result hash seq)"
  by (simp add: indexEvents_def indexEventsLoop_eq specEventEntries_def)

lemma indexWrites_eq:
  "indexWrites cd result hash txi =
     (case Marshal cd result of
        Inl err \<Rightarrow>
          (Some err,
           \<lparr>store = store txi,
            eventSeq = eventSeq txi + word_of_nat (length (Events (Result result)))\<rparr>)
      | Inr rawBytes \<Rightarrow>
          (None,
           \<lparr>store = WriteSync (specEventEntries result hash (eventSeq txi)
                        @ [(keyForHeight result, hash), (hash, rawBytes)]) (store txi),
            eventSeq = eventSeq txi + word_of_nat (length (Events (Result result)))\<rparr>))"
  by (simp add: indexEvents_eq indexWrites_def batchSet_def Let_def split: sum.splits)

lemma Index_eq:
  "Index cd result txi =
     (if indexReturnsEarly cd result txi
      then (case Get cd txi (Hash cd (Tx result)) of Inl err \<Rightarrow> Some err | Inr old \<Rightarrow> None, txi)
      else (case Marshal cd result of
              Inl err \<Rightarrow>
                (Some err,
                 \<lparr>store = store txi,
                  eventSeq = eventSeq txi + word_of_nat (length (Events (Result result)))\<rparr>)
            | Inr rawBytes \<Rightarrow>
                (None,
                 \<lparr>store = WriteSync (specEventEntries result (Hash cd (Tx result)) (eventSeq txi)
                              @ [(keyForHeight result, Hash cd (Tx result)),
                                 (Hash cd (Tx result), rawBytes)]) (store txi),
                  eventSeq = eventSeq txi + word_of_nat (length (Events (Result result)))\<rparr>)))"
  by (simp add: Index_def indexReturnsEarly_def IsOK_def CodeTypeOK_def Let_def indexWrites_eq
      split: sum.splits option.splits)

lemma addBatchLoop_eq:
  "addBatchLoop cd ops (seq, b) =
     (firstMarshalError cd ops, seq + word_of_nat (eventCount (processedOps cd ops)),
      b @ specBatchEntries cd ops seq)"
proof (induction ops arbitrary: seq b)
  case Nil
  then show ?case by (simp add: eventCount_def)
next
  case (Cons r ops)
  show ?case
    by (cases "Marshal cd r")
      (simp_all add: indexEvents_eq batchSet_def Let_def Cons.IH eventCount_def algebra_simps)
qed

lemma AddBatch_eq:
  "AddBatch cd ops txi =
     (firstMarshalError cd ops,
      \<lparr>store = (if firstMarshalError cd ops = None
                 then WriteSync (specBatchEntries cd ops (eventSeq txi)) (store txi)
                 else store txi),
       eventSeq = eventSeq txi + word_of_nat (eventCount (processedOps cd ops))\<rparr>)"
  by (simp add: AddBatch_def addBatchLoop_eq split: option.splits)

text \<open>
  C5 (event-index write discipline), as amended. \<open>indexEvents\<close> adds to the counter
  \<open>eventSeq\<close> the number of events of the result, one for every event with or without a
  type, and appends to the batch exactly the entries of \<open>specEventEntries\<close>: one for each
  attribute with a non-empty key and \<open>indexed = true\<close> inside an event with a non-empty
  type, and none for an event without a type, an attribute without a key or an attribute
  that is not indexed. \<open>Index\<close> does this for its result unless it returns early, that is
  unless the result is not OK and \<open>Get\<close> fails or finds an OK result under the hash; then
  it leaves counter and store as they are. \<open>AddBatch\<close> does it for every op up to and
  including the first one whose marshalling fails. Either commits its batch, these event
  entries with the by-height and by-hash entries, only when marshalling succeeds; the
  counter keeps its increments also when it fails.
\<close>

theorem event_index_discipline:
  "indexEvents result hash (seq, b) =
     (seq + word_of_nat (length (Events (Result result))), b @ specEventEntries result hash seq)
   \<and> Index cd result txi =
       (if indexReturnsEarly cd result txi
        then (case Get cd txi (Hash cd (Tx result)) of Inl err \<Rightarrow> Some err | Inr old \<Rightarrow> None, txi)
        else (case Marshal cd result of
                Inl err \<Rightarrow>
                  (Some err,
                   \<lparr>store = store txi,
                    eventSeq = eventSeq txi + word_of_nat (length (Events (Result result)))\<rparr>)
              | Inr rawBytes \<Rightarrow>
                  (None,
                   \<lparr>store = WriteSync (specEventEntries result (Hash cd (Tx result)) (eventSeq txi)
                                @ [(keyForHeight result, Hash cd (Tx result)),
                                   (Hash cd (Tx result), rawBytes)]) (store txi),
                    eventSeq = eventSeq txi + word_of_nat (length (Events (Result result)))\<rparr>)))
   \<and> AddBatch cd ops txi =
       (firstMarshalError cd ops,
        \<lparr>store = (if firstMarshalError cd ops = None
                   then WriteSync (specBatchEntries cd ops (eventSeq txi)) (store txi)
                   else store txi),
         eventSeq = eventSeq txi + word_of_nat (eventCount (processedOps cd ops))\<rparr>)"
  using indexEvents_eq Index_eq AddBatch_eq by simp

text \<open>
  A failed result with an event, indexed alone into an empty store and as the first op
  of a batch of two: the counter goes from 0 to 1 and the event entry is written.
\<close>

theorem event_index_discipline_witness:
  "Index exampleCodec failedWithEvent (NewTxIndex [])
     = (None,
        \<lparr>store = WriteSync [(keyForEvent ''acc.owner'' ''Ivan'' failedWithEvent 1, ''#tx''),
                            (keyForHeight failedWithEvent, ''#tx''),
                            (''#tx'', ''20;0;1;2:tx1;3:acc1;5:owner4:Ivan1'')] [],
         eventSeq = 1\<rparr>)
   \<and> AddBatch exampleCodec [failedWithEvent, txAt 1] (NewTxIndex [])
     = (None,
        \<lparr>store = WriteSync [(keyForEvent ''acc.owner'' ''Ivan'' failedWithEvent 1, ''#tx''),
                            (keyForHeight failedWithEvent, ''#tx''),
                            (''#tx'', ''20;0;1;2:tx1;3:acc1;5:owner4:Ivan1''),
                            (keyForHeight (txAt 1), ''#tx1''),
                            (''#tx1'', ''1;0;0;3:tx10;'')] [],
         eventSeq = 1\<rparr>)"
proof -
  have m: "Marshal exampleCodec failedWithEvent = Inr ''20;0;1;2:tx1;3:acc1;5:owner4:Ivan1''"
    by (simp add: eval_keys eval_codec failedWithEvent_def encEvent_def encAttribute_def)
  have m1: "Marshal exampleCodec (txAt 1) = Inr ''1;0;0;3:tx10;''"
    by (simp add: eval_keys eval_codec)
  have h: "Hash exampleCodec (Tx failedWithEvent) = ''#tx''" "Hash exampleCodec (Tx (txAt 1)) = ''#tx1''"
    by (simp_all add: exampleCodec_def failedWithEvent_def txAt_def eval_keys)
  have e: "specEventEntries failedWithEvent ''#tx'' 0
             = [(keyForEvent ''acc.owner'' ''Ivan'' failedWithEvent 1, ''#tx'')]"
    "specEventEntries (txAt 1) ''#tx1'' 1 = []"
    by (simp_all add: failedWithEvent_def specEventEntries_def txAt_def)
  have n: "length (Events (Result failedWithEvent)) = 1" "length (Events (Result (txAt 1))) = 0"
    by (simp_all add: failedWithEvent_def txAt_def)
  have early: "\<not> indexReturnsEarly exampleCodec failedWithEvent (NewTxIndex [])"
    by (simp add: indexReturnsEarly_def Get_def dbGet_def NewTxIndex_def h)
  have s: "eventSeq (NewTxIndex []) = 0" "store (NewTxIndex []) = []"
    by (simp_all add: NewTxIndex_def)
  show ?thesis
    using event_index_discipline [of failedWithEvent "''#tx''" 0 "[]" exampleCodec "NewTxIndex []"
        "[failedWithEvent, txAt 1]"]
    by (simp add: m m1 h e n early s eventCount_def)
qed

text \<open>
  The claim as stated speaks of every call of \<open>Index\<close>. On the store that holds
  \<open>okResult\<close>, \<open>Index\<close> of \<open>failedWithEvent\<close>, which has one event with one indexed
  attribute, returns early: the counter stays 0 and nothing is written.
\<close>

theorem event_index_discipline_counterexample:
  "length (Events (Result failedWithEvent)) = 1
   \<and> specEventEntries failedWithEvent ''#tx'' 0
       = [(keyForEvent ''acc.owner'' ''Ivan'' failedWithEvent 1, ''#tx'')]
   \<and> Index exampleCodec failedWithEvent okIndexed = (None, okIndexed)
   \<and> eventSeq okIndexed = 0"
proof -
  have h: "Hash exampleCodec (Tx failedWithEvent) = ''#tx''"
    by (simp add: exampleCodec_def failedWithEvent_def)
  have c: "\<not> IsOK (Result failedWithEvent)"
    by (simp add: IsOK_def CodeTypeOK_def failedWithEvent_def)
  have ok: "Code (Result okResult) = CodeTypeOK"
    by (simp add: CodeTypeOK_def okResult_def)
  have "Index exampleCodec failedWithEvent okIndexed = (None, okIndexed)"
    by (simp add: Index_def Let_def h c Get_okIndexed ok)
  moreover have "specEventEntries failedWithEvent ''#tx'' 0
       = [(keyForEvent ''acc.owner'' ''Ivan'' failedWithEvent 1, ''#tx'')]"
    by (simp add: failedWithEvent_def specEventEntries_def)
  moreover have "length (Events (Result failedWithEvent)) = 1"
    by (simp add: failedWithEvent_def)
  ultimately show ?thesis by (simp add: okIndexed_eq)
qed

section \<open>Search\<close>

subsection \<open>The context after entry\<close>

text \<open>
  Both branches of a select inside a loop continue the loop, so no loop of the model
  depends on the context.
\<close>

lemma select_same: "(case selectDone ctx n of Done \<Rightarrow> x | Default \<Rightarrow> x) = x"
  by (cases "selectDone ctx n") simp_all

lemma intersectLoop_ctx: "intersectLoop ctx = intersectLoop ctx'"
proof (intro ext)
  fix tmpHashes filteredHashes n
  show "intersectLoop ctx tmpHashes filteredHashes n = intersectLoop ctx' tmpHashes filteredHashes n"
    by (induction filteredHashes arbitrary: n) (auto simp: select_same)
qed

lemma matchScan_ctx: "matchScan pl ctx = matchScan pl ctx'"
proof (intro ext)
  fix matchEvents heightInfo its and st :: "HashSet \<times> nat"
  obtain tmpHashes n where st: "st = (tmpHashes, n)" by (cases st)
  have "matchScan pl ctx matchEvents heightInfo its (tmpHashes, n)
          = matchScan pl ctx' matchEvents heightInfo its (tmpHashes, n)"
    by (induction its arbitrary: tmpHashes n)
      (auto simp: select_same split: outcome.splits sum.splits bool.splits)
  then show "matchScan pl ctx matchEvents heightInfo its st
               = matchScan pl ctx' matchEvents heightInfo its st"
    unfolding st .
qed

lemma matchContains_ctx: "matchContains pl ctx = matchContains pl ctx'"
proof (intro ext)
  fix operand matchEvents heightInfo its and st :: "HashSet \<times> nat"
  obtain tmpHashes n where st: "st = (tmpHashes, n)" by (cases st)
  have "matchContains pl ctx operand matchEvents heightInfo its (tmpHashes, n)
          = matchContains pl ctx' operand matchEvents heightInfo its (tmpHashes, n)"
    by (induction its arbitrary: tmpHashes n)
      (auto simp: select_same split: outcome.splits sum.splits bool.splits Any.splits)
  then show "matchContains pl ctx operand matchEvents heightInfo its st
               = matchContains pl ctx' operand matchEvents heightInfo its st"
    unfolding st .
qed

lemma matchRangeLoop_ctx: "matchRangeLoop pl ctx = matchRangeLoop pl ctx'"
proof (intro ext)
  fix qrKey matchEvents heightInfo its and st :: "HashSet \<times> nat"
  obtain tmpHashes n where st: "st = (tmpHashes, n)" by (cases st)
  have "matchRangeLoop pl ctx qrKey matchEvents heightInfo its (tmpHashes, n)
          = matchRangeLoop pl ctx' qrKey matchEvents heightInfo its (tmpHashes, n)"
    by (induction its arbitrary: tmpHashes n)
      (auto simp: select_same split: outcome.splits sum.splits bool.splits)
  then show "matchRangeLoop pl ctx qrKey matchEvents heightInfo its st
               = matchRangeLoop pl ctx' qrKey matchEvents heightInfo its st"
    unfolding st .
qed

lemma match_ctx: "match pl ctx = match pl ctx'"
  by (intro ext)
    (simp only: match_def matchScan_ctx [of pl ctx ctx'] matchContains_ctx [of pl ctx ctx']
      intersectLoop_ctx [of ctx ctx'])

lemma matchRange_ctx: "matchRange pl ctx = matchRange pl ctx'"
  by (intro ext)
    (simp only: matchRange_def matchRangeLoop_ctx [of pl ctx ctx'] intersectLoop_ctx [of ctx ctx'])


lemma rangesLoop_ctx: "rangesLoop pl ctx = rangesLoop pl ctx'"
proof (intro ext)
  fix txi matchEvents heightInfo qrs and st :: "HashSet \<times> bool \<times> nat"
  show "rangesLoop pl ctx txi matchEvents heightInfo qrs st
          = rangesLoop pl ctx' txi matchEvents heightInfo qrs st"
  proof (induction qrs arbitrary: st)
    case Nil
    then show ?case by simp
  next
    case (Cons qr qrs)
    obtain fh init n where st: "st = (fh, init, n)" by (cases st)
    show ?case
      unfolding st rangesLoop.simps matchRange_ctx [of pl ctx ctx']
      by (simp only: Cons.IH)
  qed
qed

lemma conditionsLoop_ctx: "conditionsLoop pl ctx = conditionsLoop pl ctx'"
proof (intro ext)
  fix txi matchEvents heightInfo skipIndexes i cs and st :: "HashSet \<times> bool \<times> nat"
  show "conditionsLoop pl ctx txi matchEvents heightInfo skipIndexes i cs st
          = conditionsLoop pl ctx' txi matchEvents heightInfo skipIndexes i cs st"
  proof (induction cs arbitrary: st i)
    case Nil
    then show ?case by simp
  next
    case (Cons c cs)
    obtain fh init n where st: "st = (fh, init, n)" by (cases st)
    show ?case
      unfolding st conditionsLoop.simps match_ctx [of pl ctx ctx']
      by (simp only: Cons.IH)
  qed
qed

lemma resultsLoop_ctx: "resultsLoop cd ctx = resultsLoop cd ctx'"
proof (intro ext)
  fix txi filteredHashes and st :: "TxResult option list \<times> bytes list \<times> nat"
  show "resultsLoop cd ctx txi filteredHashes st = resultsLoop cd ctx' txi filteredHashes st"
  proof (induction filteredHashes arbitrary: st)
    case Nil
    obtain rs rm n where st: "st = (rs, rm, n)" by (cases st)
    show ?case unfolding st by simp
  next
    case (Cons kh filteredHashes)
    obtain rs rm n where st: "st = (rs, rm, n)" by (cases st)
    obtain k h where kh: "kh = (k, h)" by (cases kh)
    show ?case
      unfolding st kh
      by (simp add: select_same Cons.IH split: sum.splits)
  qed
qed

lemma searchConditions_ctx: "searchConditions cd pl ctx = searchConditions cd pl ctx'"
  by (intro ext)
    (simp only: searchConditions_def rangesLoop_ctx [of pl ctx ctx']
      conditionsLoop_ctx [of pl ctx ctx'] resultsLoop_ctx [of cd ctx ctx'])

text \<open>
  C10 (cancellation after entry has no effect). For every query and every state of the
  indexer, two calls of \<open>Search\<close> whose contexts are both not done at the select on entry
  return the same outcome, whatever the later selects find: a context cancelled during
  the search gives the result of one that is never cancelled. (The order of the returned
  list is the order of the walk over the map, which the model fixes for both calls.)
\<close>

theorem cancellation_after_entry:
  assumes "\<not> ctx 0" and "\<not> ctx' 0"
  shows "Search cd pl ctx q txi = Search cd pl ctx' q txi"
  using assms unfolding Search_def searchConditions_ctx [of cd pl ctx ctx']
  by (simp add: selectDone_def)

text \<open>A context cancelled right after the entry, against one that is never cancelled.\<close>

theorem cancellation_after_entry_witness:
  "Search exampleCodec specPlanner (\<lambda>n. 0 < n) (Inr heightQuery)
     \<lparr>store = exampleStore, eventSeq = 0\<rparr>
   = Search exampleCodec specPlanner (\<lambda>n. False) (Inr heightQuery)
       \<lparr>store = exampleStore, eventSeq = 0\<rparr>"
  using cancellation_after_entry [of "\<lambda>n. 0 < n" "\<lambda>n. False"] by simp

subsection \<open>The hash fast path\<close>

lemma lookForHash_first:
  assumes "list_all (\<lambda>c. CompositeKey c \<noteq> TxHashKey) pre" and "CompositeKey c = TxHashKey"
  shows "lookForHash (pre @ c # post) =
           (case Operand c of
              StringValue s \<Rightarrow> (case DecodeString s of (decoded, err) \<Rightarrow> Return (decoded, True, err))
            | _ \<Rightarrow> Panic ''interface conversion: interface {} is not string'')"
  using assms by (induction pre) simp_all

text \<open>What \<open>Search\<close> returns once the hash of the fast path is known.\<close>

lemma Search_hash_path:
  assumes "\<not> ctx 0" and "list_all (\<lambda>c. CompositeKey c \<noteq> TxHashKey) pre"
    and "CompositeKey c = TxHashKey"
  shows "Search cd pl ctx (Inr (pre @ c # post)) txi =
           (case Operand c of
              StringValue s \<Rightarrow>
                (case DecodeString s of
                   (H, Some e) \<Rightarrow>
                     Return (None, Some (Wrap ''error during searching for a hash in the query'' e))
                 | (H, None) \<Rightarrow>
                     (case Get cd txi H of
                        Inl e \<Rightarrow> Return (Some [], Some (Wrap ''error while retrieving the result'' e))
                      | Inr None \<Rightarrow> Return (Some [], None)
                      | Inr (Some res) \<Rightarrow> Return (Some [Some res], None)))
            | _ \<Rightarrow> Panic ''interface conversion: interface {} is not string'')"
  using assms(1)
  by (simp add: Search_def selectDone_def lookForHash_first [OF assms(2,3)]
      split: Any.splits prod.splits option.splits)




text \<open>
  C4 (hash fast path), as amended. Let the first condition of the query on \<open>tx.hash\<close>
  have a hex string as operand that decodes to \<open>H\<close>, and let the context be not done on
  entry. Then \<open>Search\<close> returns what \<open>Get H\<close> yields and nothing else: the one stored result
  for \<open>H\<close>, or the empty list when nothing is stored under \<open>H\<close>, or the empty list with an
  error when \<open>Get\<close> fails (an empty \<open>H\<close>, stored bytes that do not decode). So it returns at
  most one result, and no other condition of the query has a part in it.
\<close>

theorem hash_fast_path:
  assumes "\<not> ctx 0" and "list_all (\<lambda>c. CompositeKey c \<noteq> TxHashKey) pre"
    and "CompositeKey c = TxHashKey" and "Operand c = StringValue s"
    and "DecodeString s = (H, None)"
  shows "Search cd pl ctx (Inr (pre @ c # post)) txi =
           (case Get cd txi H of
              Inl e \<Rightarrow> Return (Some [], Some (Wrap ''error while retrieving the result'' e))
            | Inr None \<Rightarrow> Return (Some [], None)
            | Inr (Some res) \<Rightarrow> Return (Some [Some res], None))
         \<and> (\<forall>rs e. Search cd pl ctx (Inr (pre @ c # post)) txi = Return (Some rs, e)
                \<longrightarrow> length rs \<le> 1)"
  using Search_hash_path [where ctx = ctx, OF assms(1-3), of cd pl post txi] assms(4,5)
  by (auto split: sum.splits option.splits)

text \<open>The hash condition between two other conditions; \<open>237478\<close> is the hash \<open>#tx\<close> in hex.\<close>

theorem hash_fast_path_witness:
  "Search exampleCodec specPlanner (\<lambda>n. False)
     (Inr [ownerCondition, hashCondition OpEqual ''237478'', ownerCondition]) okIndexed
   = Return (Some [Some okResult], None)"
proof -
  have a: "\<not> (\<lambda>n :: nat. False) 0" by simp
  have b: "list_all (\<lambda>c. CompositeKey c \<noteq> TxHashKey) [ownerCondition]"
    by (simp add: ownerCondition_def TxHashKey_def)
  have c: "CompositeKey (hashCondition OpEqual ''237478'') = TxHashKey"
    and d: "Operand (hashCondition OpEqual ''237478'') = StringValue ''237478''"
    by (simp_all add: hashCondition_def)
  have e: "DecodeString ''237478'' = (''#tx'', None)"
    by (simp add: DecodeString_def fromHexChar_def char_of_eq_iff)
  show ?thesis
    using hash_fast_path [where ctx = "\<lambda>n. False", OF a b c d e, of exampleCodec specPlanner
        "[ownerCondition]" okIndexed]
    by (simp add: Get_okIndexed)
qed

text \<open>
  The claim as stated speaks of every query that contains a condition \<open>tx.hash = H\<close>. The
  query \<open>tx.hash = '23747831' AND tx.hash = '23747832'\<close> contains one for the hash \<open>#tx2\<close>,
  under which \<open>txAt 2\<close> is stored; \<open>Search\<close> looks up the hash \<open>#tx1\<close> of the first
  condition and returns \<open>txAt 1\<close>.
\<close>

theorem hash_fast_path_counterexample:
  "DecodeString ''23747832'' = (''#tx2'', None)
   \<and> Get exampleCodec \<lparr>store = exampleStore, eventSeq = 0\<rparr> ''#tx2'' = Inr (Some (txAt 2))
   \<and> Search exampleCodec specPlanner (\<lambda>n. False)
       (Inr [hashCondition OpEqual ''23747831'', hashCondition OpEqual ''23747832''])
       \<lparr>store = exampleStore, eventSeq = 0\<rparr>
     = Return (Some [Some (txAt 1)], None)
   \<and> txAt 1 \<noteq> txAt 2"
proof -
  have d1: "DecodeString ''23747831'' = (''#tx1'', None)"
    and d2: "DecodeString ''23747832'' = (''#tx2'', None)"
    by (simp_all add: DecodeString_def fromHexChar_def char_of_eq_iff)
  have g1: "Get exampleCodec \<lparr>store = exampleStore, eventSeq = 0\<rparr> ''#tx1'' = Inr (Some (txAt 1))"
    and g2: "Get exampleCodec \<lparr>store = exampleStore, eventSeq = 0\<rparr> ''#tx2'' = Inr (Some (txAt 2))"
    by (simp_all add: eval_keys eval_codec eval_index exampleStore_def)
  have "Search exampleCodec specPlanner (\<lambda>n. False)
       (Inr [hashCondition OpEqual ''23747831'', hashCondition OpEqual ''23747832''])
       \<lparr>store = exampleStore, eventSeq = 0\<rparr>
     = Return (Some [Some (txAt 1)], None)"
    by (simp add: Search_def selectDone_def hashCondition_def d1 g1)
  with d2 g2 show ?thesis by (simp add: txAt_def)
qed

subsection \<open>The height range of the scenario S4\<close>

lemma Index_txAt:
  "Index exampleCodec (txAt h) txi =
     (None, \<lparr>store = dbSet (''#tx'' @ FormatInt h) (encTxResult (txAt h))
                       (dbSet (keyForHeight (txAt h)) (''#tx'' @ FormatInt h) (store txi)),
             eventSeq = eventSeq txi\<rparr>)"
  by (simp add: Index_def indexWrites_def indexEvents_def IsOK_def CodeTypeOK_def batchSet_def
      WriteSync_def exampleCodec_def txAt_def Let_def)

lemma indexAll_ten:
  "indexAll exampleCodec (map txAt [1, 2, 3, 4, 5, 6, 7, 8, 9, 10]) (NewTxIndex [])
     = \<lparr>store = exampleStore, eventSeq = 0\<rparr>"
  apply (simp only: indexAll.simps list.map Index_txAt snd_conv NewTxIndex_def TxIndex.simps)
  apply (simp add: exampleStore_def eval_keys txAt_def encTxResult_def encNum_def encBytes_def)
  done

lemma Search_ten:
  "Search exampleCodec specPlanner (\<lambda>n. False) (Inr heightQuery)
     \<lparr>store = exampleStore, eventSeq = 0\<rparr>
   = Return (Some [Some (txAt 3), Some (txAt 4), Some (txAt 5), Some (txAt 6)], None)"
  by (simp add: eval_keys eval_codec eval_index eval_search exampleStore_def)

lemma Get_seven:
  "Get exampleCodec \<lparr>store = exampleStore, eventSeq = 0\<rparr> ''#tx7'' = Inr (Some (txAt 7))"
  by (simp add: eval_keys eval_codec eval_index exampleStore_def)

text \<open>
  Why the upper height is missed: for every result, the end key that \<open>matchRange\<close> builds
  from the height of the result is a proper prefix of the by-height key of the result, so
  the key is not below the end key.
\<close>

lemma bytesLess_Nil: "\<not> bytesLess s []"
  by (cases s) simp_all

lemma bytesLess_extension: "\<not> bytesLess (p @ s) p"
  by (induction p) (simp_all add: bytesLess_Nil)

lemma upper_height_key_not_scanned:
  "\<not> bytesLess (keyForHeight r)
       (joinSizeBytes (length (startKey [TxHeightKey]) + 4 + length tagKeySeparator)
          [startKey [TxHeightKey], be4 (Height r), tagKeySeparator])"
proof -
  let ?toKey = "TxHeightKey @ ''/'' @ be4 (Height r) @ ''/''"
  have to: "joinSizeBytes (length (startKey [TxHeightKey]) + 4 + length tagKeySeparator)
              [startKey [TxHeightKey], be4 (Height r), tagKeySeparator] = ?toKey"
    by (simp add: joinSizeBytes_def startKey_def tagKeySeparator_def be4_def)
  have key: "keyForHeight r =
               ?toKey @ (FormatInt (Height r) @ ''/'' @ FormatUint (TxIdx r)
                 @ eventSeqSeparator @ ''0'')"
    by (simp add: keyForHeight_shape)
  show ?thesis unfolding to key by (rule bytesLess_extension)
qed

text \<open>
  C2 (inclusive height range) fails on the code. Ten results are indexed at the heights
  1 to 10, each with a transaction of its own. \<open>Search\<close> for
  \<open>tx.height >= 3 AND tx.height <= 7\<close> returns the four results at the heights 3 to 6. The
  result at height 7 is stored, but its by-height key extends the end key of the scan,
  which the iterator excludes.
\<close>

theorem height_range_misses_upper_bound:
  "Search exampleCodec specPlanner (\<lambda>n. False) (Inr heightQuery)
     (indexAll exampleCodec (map txAt [1, 2, 3, 4, 5, 6, 7, 8, 9, 10]) (NewTxIndex []))
   = Return (Some [Some (txAt 3), Some (txAt 4), Some (txAt 5), Some (txAt 6)], None)
   \<and> Get exampleCodec
       (indexAll exampleCodec (map txAt [1, 2, 3, 4, 5, 6, 7, 8, 9, 10]) (NewTxIndex []))
       ''#tx7'' = Inr (Some (txAt 7))
   \<and> Height (txAt 7) = 7"
  by (simp only: indexAll_ten Search_ten Get_seven) (simp add: txAt_def)

end
